theory Spec2Isabelle
  imports Main
begin

section \<open>Super Timer: instruction builder, sequence expander and countdown runner\<close>

text \<open>
  A shallow embedding of \<^verbatim>\<open>src/app/page.tsx\<close>. JavaScript numbers are used by the
  program only as integers (identifiers, seconds, repeat counts); they are modelled as
  \<open>nat\<close> (identifiers, array indices, interval handles) and \<open>int\<close> (seconds and counts).
  Parsing, formatting and the countdown round their results as the program's doubles do
  (subsection Numbers). Arrays are lists, \<^verbatim>\<open>null\<close> and \<^verbatim>\<open>NaN\<close> results are \<open>None\<close>.
\<close>

subsection \<open>Data model\<close>

text \<open>\<^verbatim>\<open>TimeInstruction = { id: number; type: "time"; time: number }\<close>\<close>

record TimeInstruction =
  id' :: nat
  time :: int

text \<open>
  \<^verbatim>\<open>Instruction\<close> is the tagged union of a time instruction and
  \<^verbatim>\<open>{ id: number; type: "repeat"; times: number }\<close>.
\<close>

datatype Instruction = Time TimeInstruction | Repeat nat int

fun inst_id :: "Instruction \<Rightarrow> nat" where
  "inst_id (Time t) = id' t"
| "inst_id (Repeat i k) = i"

fun is_time :: "Instruction \<Rightarrow> bool" where
  "is_time (Time t) = True"
| "is_time (Repeat i k) = False"

subsection \<open>Sequence expander\<close>

text \<open>
  The inner loop \<^verbatim>\<open>for (let i = 0; i < inst.times; i++) flattened.push(...copy)\<close>,
  with the loop counter explicit.
\<close>

function push_copies ::
  "int \<Rightarrow> int \<Rightarrow> TimeInstruction list \<Rightarrow> TimeInstruction list \<Rightarrow> TimeInstruction list" where
  "push_copies i n copy flattened =
     (if i < n then push_copies (i + 1) n copy (flattened @ copy) else flattened)"
  by pat_completeness auto
termination
  by (relation "measure (\<lambda>(i, n, copy, flattened). nat (n - i))") auto

declare push_copies.simps [simp del]

text \<open>The outer loop \<^verbatim>\<open>for (const inst of instrs)\<close> over the accumulator \<^verbatim>\<open>flattened\<close>.\<close>

fun flatten_loop :: "TimeInstruction list \<Rightarrow> Instruction list \<Rightarrow> TimeInstruction list" where
  "flatten_loop flattened [] = flattened"
| "flatten_loop flattened (Time t # instrs) = flatten_loop (flattened @ [t]) instrs"
| "flatten_loop flattened (Repeat i k # instrs) =
     flatten_loop (push_copies 0 k flattened flattened) instrs"

definition flattenInstructionsEntire :: "Instruction list \<Rightarrow> TimeInstruction list" where
  "flattenInstructionsEntire instrs = flatten_loop [] instrs"

subsection \<open>Numbers\<close>

text \<open>
  A JavaScript number is a double: a significand of 53 bits and a binary exponent.
  The program holds integers only, so a number is modelled by the integer it is. Every
  integer of magnitude up to \<open>2 ^ 53\<close> is a number; the result of \<^verbatim>\<open>parseInt\<close> and of
  each arithmetic operation is the number nearest to the exact result, the one with
  the even significand when two are equally near. \<open>fl\<close> is this rounding on integers.
  Magnitudes from \<open>2 ^ 1024\<close> on are \<^verbatim>\<open>Infinity\<close> in the program and are not
  represented; no statement below reaches them.
\<close>

text \<open>The number of binary digits of a positive integer.\<close>

function bit_length :: "int \<Rightarrow> nat" where
  "bit_length n = (if n \<le> 0 then 0 else Suc (bit_length (n div 2)))"
  by pat_completeness auto
termination
  by (relation "measure nat") auto

declare bit_length.simps [simp del]

text \<open>The integer nearest to \<open>a / b\<close> for \<open>b > 0\<close>, the even one of two equally near.\<close>

definition round_half_even :: "int \<Rightarrow> int \<Rightarrow> int" where
  "round_half_even a b =
     (let q = a div b; r = a mod b
      in if 2 * r < b then q
         else if b < 2 * r then q + 1
         else if even q then q else q + 1)"

definition fl :: "int \<Rightarrow> int" where
  "fl n =
     (let q = 2 ^ (bit_length \<bar>n\<bar> - 53)
      in sgn n * (q * round_half_even \<bar>n\<bar> q))"

text \<open>
  \<^verbatim>\<open>Math.floor(a / d)\<close> for a divisor \<open>d > 0\<close>: the quotient is rounded to 53
  significant bits and then taken down to an integer. A quotient of \<open>2 ^ 53\<close> or more
  is rounded to a multiple of a power of two; a smaller one is scaled up by
  \<open>2 ^ k\<close> until its integer part has 53 bits, rounded, and scaled back.
\<close>

function norm_shift :: "int \<Rightarrow> int \<Rightarrow> nat \<Rightarrow> nat" where
  "norm_shift a d k =
     (if 0 < a \<and> 0 < d \<and> a * 2 ^ k div d < 2 ^ 52 then norm_shift a d (Suc k) else k)"
  by pat_completeness auto
termination
proof (relation "measure (\<lambda>(a, d, k). nat (2 ^ 52 * d - a * 2 ^ k))")
  show "wf (measure (\<lambda>(a, d, k). nat (2 ^ 52 * d - a * 2 ^ k)))"
    by simp
next
  fix a d :: int and k :: nat
  assume h: "0 < a \<and> 0 < d \<and> a * 2 ^ k div d < 2 ^ 52"
  then have "a * 2 ^ k div d + 1 \<le> 2 ^ 52"
    by simp
  then have "(a * 2 ^ k div d + 1) * d \<le> 2 ^ 52 * d"
    using h by (simp add: mult_right_mono)
  moreover have "a * 2 ^ k < (a * 2 ^ k div d + 1) * d"
    using h by (metis add.commute div_mult_mod_eq distrib_right mult.commute mult_1
        add_less_cancel_left pos_mod_bound)
  ultimately have "a * 2 ^ k < 2 ^ 52 * d"
    by linarith
  moreover have "a * 2 ^ k < a * 2 ^ Suc k"
    using h by simp
  ultimately show "((a, d, Suc k), (a, d, k)) \<in> measure (\<lambda>(a, d, k). nat (2 ^ 52 * d - a * 2 ^ k))"
    by simp
qed

declare norm_shift.simps [simp del]

definition floor_quot :: "int \<Rightarrow> int \<Rightarrow> int" where
  "floor_quot a d =
     (let m = \<bar>a\<bar>
      in if 2 ^ 53 \<le> m div d
         then (let s = bit_length (m div d) - 53
               in sgn a * (2 ^ s * round_half_even m (d * 2 ^ s)))
         else (let k = norm_shift m d 0
               in (sgn a * round_half_even (m * 2 ^ k) d) div 2 ^ k))"

subsection \<open>Formatting and parsing times\<close>

text \<open>
  Strings are lists of characters. \<open>digits\<close> are the decimal digits of a non-negative
  integer, most significant first.
\<close>

definition digit_char :: "nat \<Rightarrow> char" where
  "digit_char d = char_of (48 + d)"

function digits :: "int \<Rightarrow> string" where
  "digits n =
     (if n < 10 then [digit_char (nat n)]
      else digits (n div 10) @ [digit_char (nat (n mod 10))])"
  by pat_completeness auto
termination
  by (relation "measure nat") auto

declare digits.simps [simp del]

text \<open>
  \<^verbatim>\<open>Number.prototype.toString\<close> prints the shortest digit string \<open>s\<close>, of \<open>k\<close> digits,
  such that \<open>s\<close> times a power of ten rounds to the number; \<open>n\<close> is the number of
  digits before the decimal point. \<open>shortest_from\<close> looks for it from \<open>k\<close> digits on,
  for a number \<open>m\<close> of \<open>D\<close> digits: the two candidates of \<open>k\<close> digits are the first
  \<open>k\<close> digits of \<open>m\<close> and their successor; of two that fit, the nearer to \<open>m\<close> is
  taken, the even one when both are equally near.
\<close>

function shortest_from :: "int \<Rightarrow> nat \<Rightarrow> nat \<Rightarrow> int \<times> nat" where
  "shortest_from m D k =
     (if D \<le> k then (m, D)
      else (let p = 10 ^ (D - k);
                lo = m div p;
                hi = lo + 1;
                ok_lo = (fl (lo * p) = m);
                ok_hi = (hi < 10 ^ k \<and> fl (hi * p) = m)
            in if ok_lo \<and> ok_hi
               then (if m - lo * p < hi * p - m \<or> (m - lo * p = hi * p - m \<and> even lo)
                     then (lo, k) else (hi, k))
               else if ok_lo then (lo, k)
               else if ok_hi then (hi, k)
               else shortest_from m D (Suc k)))"
  by pat_completeness auto
termination
  by (relation "measure (\<lambda>(m, D, k). D - k)") auto

declare shortest_from.simps [simp del]

text \<open>
  The digits of a non-negative number. Below \<open>2 ^ 53\<close> every integer is a number of its
  own, so the shortest digit string is the whole of its digits. From there on the
  shortest string is followed by zeros up to 21 digits, and written with an exponent
  beyond.
\<close>

definition number_digits :: "int \<Rightarrow> string" where
  "number_digits m =
     (if m < 2 ^ 53 then digits m
      else (let D = length (digits m);
                (s, k, n) = (if fl (10 ^ D) = m then (1, 1, D + 1)
                             else (let (s, k) = shortest_from m D 1 in (s, k, D)))
            in if n \<le> 21 then digits s @ replicate (n - k) (CHR ''0'')
               else (let ds = digits s
                     in hd ds # (if k = 1 then [] else CHR ''.'' # tl ds) @ ''e+''
                          @ digits (int n - 1))))"

definition toString :: "int \<Rightarrow> string" where
  "toString n = (if n < 0 then CHR ''-'' # number_digits (- n) else number_digits n)"

text \<open>\<^verbatim>\<open>s.padStart(2, "0")\<close>\<close>

definition padStart2 :: "string \<Rightarrow> string" where
  "padStart2 s = replicate (2 - length s) (CHR ''0'') @ s"

text \<open>
  The remainder operator \<^verbatim>\<open>%\<close> of JavaScript truncates: its result has the sign of
  the dividend. It is exact on numbers.
\<close>

definition js_rem :: "int \<Rightarrow> int \<Rightarrow> int" where
  "js_rem a b = sgn a * (\<bar>a\<bar> mod \<bar>b\<bar>)"

definition formatTime :: "int \<Rightarrow> string" where
  "formatTime totalSeconds =
     (let hrs = floor_quot totalSeconds 3600;
          mins = floor_quot (js_rem totalSeconds 3600) 60;
          secs = js_rem totalSeconds 60
      in padStart2 (toString hrs) @ '':'' @ padStart2 (toString mins) @ '':''
           @ padStart2 (toString secs))"

text \<open>\<^verbatim>\<open>input.split(":")\<close>: the fields between the separators, at least one.\<close>

fun split_on :: "char \<Rightarrow> string \<Rightarrow> string list" where
  "split_on sep [] = [[]]"
| "split_on sep (c # cs) =
     (if c = sep then [] # split_on sep cs
      else (case split_on sep cs of
              [] \<Rightarrow> [[c]]
            | p # ps \<Rightarrow> (c # p) # ps))"

text \<open>
  \<^verbatim>\<open>parseInt(s, 10)\<close>: leading white space is skipped, one sign is read, then the
  longest run of decimal digits; what follows the digits is ignored. With no digit
  the result is \<^verbatim>\<open>NaN\<close>, here \<open>None\<close>; otherwise it is the number nearest to the
  integer the digits denote (the language lets an implementation replace the digits
  after the twentieth by zeros first; here all digits are read). The white space
  characters are those of the one-byte range (tab, line feed, vertical tab, form feed,
  carriage return, space, no-break space).
\<close>

definition isWhiteSpace :: "char \<Rightarrow> bool" where
  "isWhiteSpace c =
     (c = CHR 0x09 \<or> c = CHR 0x0A \<or> c = CHR 0x0B \<or> c = CHR 0x0C \<or> c = CHR 0x0D
      \<or> c = CHR '' '' \<or> c = CHR 0xA0)"

definition isDigit :: "char \<Rightarrow> bool" where
  "isDigit c = (48 \<le> (of_char c :: nat) \<and> (of_char c :: nat) \<le> 57)"

definition digit_val :: "char \<Rightarrow> nat" where
  "digit_val c = of_char c - 48"

definition digits_val :: "string \<Rightarrow> int" where
  "digits_val ds = foldl (\<lambda>acc c. acc * 10 + int (digit_val c)) 0 ds"

definition parseInt :: "string \<Rightarrow> int option" where
  "parseInt s =
     (let t = dropWhile isWhiteSpace s;
          neg = (t \<noteq> [] \<and> hd t = CHR ''-'');
          u = (if t \<noteq> [] \<and> (hd t = CHR ''-'' \<or> hd t = CHR ''+'') then tl t else t);
          ds = takeWhile isDigit u
      in if ds = [] then None
         else Some (fl (if neg then - digits_val ds else digits_val ds)))"

text \<open>
  \<^verbatim>\<open>parseTimeInput\<close>: \<open>those\<close> is \<open>None\<close> as soon as one field is \<^verbatim>\<open>NaN\<close>
  (\<^verbatim>\<open>parts.some(isNaN)\<close>); then the number of fields decides. Each product and each
  sum of \<^verbatim>\<open>hrs * 3600 + mins * 60 + secs\<close> is rounded, from left to right.
\<close>

fun combine_parts :: "int list \<Rightarrow> int option" where
  "combine_parts [hrs, mins, secs] = Some (fl (fl (fl (hrs * 3600) + fl (mins * 60)) + secs))"
| "combine_parts [mins, secs] = Some (fl (fl (mins * 60) + secs))"
| "combine_parts [secs] = Some secs"
| "combine_parts parts = None"

definition parseTimeInput :: "string \<Rightarrow> int option" where
  "parseTimeInput input =
     (case those (map parseInt (split_on (CHR '':'') input)) of
        None \<Rightarrow> None
      | Some parts \<Rightarrow> combine_parts parts)"

text \<open>A non-negative integer numeral: one or more decimal digits and nothing else.\<close>

definition isNumeral :: "string \<Rightarrow> bool" where
  "isNumeral f = (f \<noteq> [] \<and> list_all isDigit f)"

subsection \<open>Application state\<close>

text \<open>\<^verbatim>\<open>programState: { index: number; countdown: number }\<close>\<close>

record ProgramState =
  index :: nat
  countdown :: int

text \<open>\<^verbatim>\<open>SavedTimer = { id: number; name: string; instructions: Instruction[] }\<close>\<close>

record SavedTimer =
  timer_id :: nat
  timer_name :: string
  timer_instructions :: "Instruction list"

text \<open>
  The state of the \<^verbatim>\<open>Home\<close> component: every \<^verbatim>\<open>useState\<close> cell and
  \<^verbatim>\<open>useRef\<close> cell under its own name. Three more fields stand for what the
  component acts on outside itself: \<open>intervals\<close>, the handles of the browser's live
  interval timers; \<open>nextHandle\<close>, the handle the next \<^verbatim>\<open>setInterval\<close> returns
  (handles are greater than zero); \<open>audioPlays\<close>, the number of calls of
  \<^verbatim>\<open>audioRef.current.play()\<close> so far.
\<close>

record App =
  instructions :: "Instruction list"
  timeInput :: string
  repeatInput :: int
  instructionIdRef :: nat
  editingRef :: bool
  flattenedSequence :: "TimeInstruction list"
  programState :: ProgramState
  isProgramRunning :: bool
  programIntervalRef :: "nat option"
  savedTimers :: "SavedTimer list"
  savedTimerName :: string
  loadedTimerId :: "nat option"
  savedTimerIdRef :: nat
  intervals :: "nat list"
  nextHandle :: nat
  audioPlays :: nat

definition init_app :: App where
  "init_app =
     \<lparr>instructions = [], timeInput = [], repeatInput = 1, instructionIdRef = 0,
      editingRef = False, flattenedSequence = [],
      programState = \<lparr>index = 0, countdown = 0\<rparr>, isProgramRunning = False,
      programIntervalRef = None, savedTimers = [], savedTimerName = [],
      loadedTimerId = None, savedTimerIdRef = 0, intervals = [], nextHandle = 1,
      audioPlays = 0\<rparr>"

subsection \<open>Instruction builder\<close>

definition addTimeInstruction :: "App \<Rightarrow> App" where
  "addTimeInstruction s =
     (case parseTimeInput (timeInput s) of
        None \<Rightarrow> s
      | Some seconds \<Rightarrow>
          if seconds \<le> 0 then s
          else s\<lparr>instructions :=
                   instructions s @ [Time \<lparr>id' = instructionIdRef s, time = seconds\<rparr>],
                 instructionIdRef := instructionIdRef s + 1,
                 timeInput := []\<rparr>)"

definition addRepeatInstruction :: "App \<Rightarrow> App" where
  "addRepeatInstruction s =
     (if \<not> list_ex is_time (instructions s) then s
      else s\<lparr>instructions := instructions s @ [Repeat (instructionIdRef s) (repeatInput s)],
             instructionIdRef := instructionIdRef s + 1\<rparr>)"

text \<open>
  The change handlers of the two input fields. The repeat field is a number input whose
  handler is \<^verbatim>\<open>setRepeatInput(parseInt(e.target.value) || 1)\<close>: \<^verbatim>\<open>NaN\<close> and
  zero are falsy and become 1, every other integer is kept. (Without a radix
  \<^verbatim>\<open>parseInt\<close> also reads a \<^verbatim>\<open>0x\<close> prefix, which the value of a number input
  never has.)
\<close>

definition changeTimeInput :: "string \<Rightarrow> App \<Rightarrow> App" where
  "changeTimeInput v s = s\<lparr>timeInput := v\<rparr>"

definition changeRepeatInput :: "string \<Rightarrow> App \<Rightarrow> App" where
  "changeRepeatInput v s =
     s\<lparr>repeatInput := (case parseInt v of
                          None \<Rightarrow> 1
                        | Some n \<Rightarrow> if n = 0 then 1 else n)\<rparr>"

text \<open>
  \<^verbatim>\<open>editInstruction\<close> maps over the list and opens one \<^verbatim>\<open>window.prompt\<close> for
  each instruction with the given identifier. The answers of the user are a parameter,
  one per prompt, in order; \<open>None\<close> is a cancelled prompt, and so is a missing answer.
\<close>

fun edit_one :: "string option \<Rightarrow> Instruction \<Rightarrow> Instruction" where
  "edit_one answer (Time t) =
     (case answer of
        None \<Rightarrow> Time t
      | Some newTimeStr \<Rightarrow>
          if newTimeStr = [] then Time t
          else (case parseTimeInput newTimeStr of
                  None \<Rightarrow> Time t
                | Some newSeconds \<Rightarrow>
                    if newSeconds > 0 then Time (t\<lparr>time := newSeconds\<rparr>) else Time t))"
| "edit_one answer (Repeat i k) =
     (case answer of
        None \<Rightarrow> Repeat i k
      | Some newRepeatStr \<Rightarrow>
          if newRepeatStr = [] then Repeat i k
          else (case parseInt newRepeatStr of
                  None \<Rightarrow> Repeat i k
                | Some newRepeat \<Rightarrow>
                    if newRepeat > 0 then Repeat i newRepeat else Repeat i k))"

fun edit_map :: "nat \<Rightarrow> string option list \<Rightarrow> Instruction list \<Rightarrow> Instruction list" where
  "edit_map i answers [] = []"
| "edit_map i answers (inst # insts) =
     (if inst_id inst = i
      then (case answers of
              [] \<Rightarrow> inst # edit_map i [] insts
            | a # as \<Rightarrow> edit_one a inst # edit_map i as insts)
      else inst # edit_map i answers insts)"

definition editInstruction :: "nat \<Rightarrow> string option list \<Rightarrow> App \<Rightarrow> App" where
  "editInstruction i answers s =
     (if editingRef s then s
      else s\<lparr>instructions := edit_map i answers (instructions s), editingRef := False\<rparr>)"

definition deleteInstruction :: "nat \<Rightarrow> App \<Rightarrow> App" where
  "deleteInstruction i s =
     s\<lparr>instructions := filter (\<lambda>inst. inst_id inst \<noteq> i) (instructions s)\<rparr>"

definition clearInstructions :: "App \<Rightarrow> App" where
  "clearInstructions s = s\<lparr>instructions := []\<rparr>"

subsection \<open>Countdown runner\<close>

definition startProgram :: "App \<Rightarrow> App" where
  "startProgram s =
     (let sequence = flattenInstructionsEntire (instructions s)
      in if length sequence = 0 then s
         else s\<lparr>flattenedSequence := sequence,
                programState := \<lparr>index = 0, countdown = time (sequence ! 0)\<rparr>,
                isProgramRunning := True\<rparr>)"

text \<open>
  \<^verbatim>\<open>if (programIntervalRef.current) clearInterval(programIntervalRef.current)\<close>:
  \<^verbatim>\<open>null\<close> and 0 are falsy; clearing a handle that is not live does nothing.
\<close>

definition clear_interval_ref :: "App \<Rightarrow> App" where
  "clear_interval_ref s =
     (case programIntervalRef s of
        None \<Rightarrow> s
      | Some h \<Rightarrow> if h = 0 then s else s\<lparr>intervals := removeAll h (intervals s)\<rparr>)"

definition stopProgram :: "App \<Rightarrow> App" where
  "stopProgram s = clear_interval_ref (s\<lparr>isProgramRunning := False\<rparr>)"

text \<open>
  \<^verbatim>\<open>editCurrentInstruction\<close>, with the answer to its prompt as a parameter. Reading
  \<^verbatim>\<open>currentInst.time\<close> throws when the index is outside the sequence, before any
  state is written: the state is then unchanged.
\<close>

definition editCurrentInstruction :: "string option \<Rightarrow> App \<Rightarrow> App" where
  "editCurrentInstruction answer s =
     (if \<not> isProgramRunning s then s
      else if \<not> index (programState s) < length (flattenedSequence s) then s
      else (case answer of
              None \<Rightarrow> s
            | Some newTimeStr \<Rightarrow>
                if newTimeStr = [] then s
                else (case parseTimeInput newTimeStr of
                        None \<Rightarrow> s
                      | Some newSeconds \<Rightarrow>
                          if newSeconds > 0
                          then s\<lparr>flattenedSequence :=
                                   (flattenedSequence s)
                                     [index (programState s) :=
                                        (flattenedSequence s ! index (programState s))
                                          \<lparr>time := newSeconds\<rparr>],
                                 programState :=
                                   (programState s)\<lparr>countdown := newSeconds\<rparr>\<rparr>
                          else s)))"

text \<open>
  The callback of the interval: the update of \<^verbatim>\<open>programState\<close>, the audio cue and,
  at the end of the sequence, \<^verbatim>\<open>setIsProgramRunning(false)\<close>. The audio element is
  rendered unconditionally, so \<^verbatim>\<open>audioRef.current\<close> is set and \<^verbatim>\<open>play()\<close> is called;
  a rejected play is caught and logged. The callback reads the \<^verbatim>\<open>flattenedSequence\<close> of
  the render that set the interval; the effect sets a new interval whenever the sequence
  changes, so this is the current sequence.
\<close>

definition interval_callback :: "App \<Rightarrow> App" where
  "interval_callback s =
     (let prev = programState s
      in if countdown prev > 0
         then s\<lparr>programState := prev\<lparr>countdown := fl (countdown prev - 1)\<rparr>\<rparr>
         else (let s1 = s\<lparr>audioPlays := audioPlays s + 1\<rparr>;
                   newIndex = index prev + 1
               in if newIndex < length (flattenedSequence s)
                  then s1\<lparr>programState :=
                            \<lparr>index = newIndex,
                             countdown = time (flattenedSequence s ! newIndex)\<rparr>\<rparr>
                  else s1\<lparr>isProgramRunning := False\<rparr>))"

text \<open>
  The countdown effect has the dependencies \<^verbatim>\<open>[isProgramRunning, flattenedSequence]\<close>.
  When one of them has changed in a render, the cleanup of the previous run clears the
  interval of \<^verbatim>\<open>programIntervalRef\<close>, and the body sets a new interval while the
  program is running. Every update of the state is rendered, and the effect run, before
  the next callback of a timer or of the user interface (callbacks are serialized).
  React compares the dependencies by identity: the sequence has changed exactly when a
  handler has stored an array, whatever its contents; \<open>stored\<close> says that this has
  happened in the update being rendered.
\<close>

definition effect_body :: "App \<Rightarrow> App" where
  "effect_body s =
     (if isProgramRunning s
      then s\<lparr>programIntervalRef := Some (nextHandle s),
             intervals := nextHandle s # intervals s,
             nextHandle := nextHandle s + 1\<rparr>
      else s)"

definition rerender :: "bool \<Rightarrow> App \<Rightarrow> App \<Rightarrow> App" where
  "rerender stored old new =
     (if isProgramRunning old \<noteq> isProgramRunning new \<or> stored
      then effect_body (clear_interval_ref new)
      else new)"

text \<open>
  The handlers that call \<^verbatim>\<open>setFlattenedSequence\<close>: \<^verbatim>\<open>startProgram\<close> when the
  expansion is not empty, and \<^verbatim>\<open>editCurrentInstruction\<close> when the answer to its prompt
  is accepted.
\<close>

definition edit_accepted :: "string option \<Rightarrow> App \<Rightarrow> bool" where
  "edit_accepted answer s =
     (isProgramRunning s \<and> index (programState s) < length (flattenedSequence s)
      \<and> (case answer of
            None \<Rightarrow> False
          | Some newTimeStr \<Rightarrow>
              newTimeStr \<noteq> []
              \<and> (case parseTimeInput newTimeStr of
                    None \<Rightarrow> False
                  | Some newSeconds \<Rightarrow> newSeconds > 0)))"

subsection \<open>Saved timers\<close>

text \<open>\<^verbatim>\<open>String.prototype.trim\<close>: white space removed at both ends.\<close>

definition trim :: "string \<Rightarrow> string" where
  "trim s = rev (dropWhile isWhiteSpace (rev (dropWhile isWhiteSpace s)))"

definition saveOrUpdateTimer :: "App \<Rightarrow> App" where
  "saveOrUpdateTimer s =
     (if trim (savedTimerName s) = [] \<or> length (instructions s) = 0 then s
      else (case loadedTimerId s of
              Some lid \<Rightarrow>
                s\<lparr>savedTimers :=
                     map (\<lambda>timer. if timer_id timer = lid
                                  then timer\<lparr>timer_name := savedTimerName s,
                                             timer_instructions := instructions s\<rparr>
                                  else timer)
                       (savedTimers s),
                   loadedTimerId := None,
                   savedTimerName := []\<rparr>
            | None \<Rightarrow>
                s\<lparr>savedTimers :=
                     savedTimers s
                       @ [\<lparr>timer_id = savedTimerIdRef s, timer_name = savedTimerName s,
                           timer_instructions = instructions s\<rparr>],
                   savedTimerIdRef := savedTimerIdRef s + 1,
                   savedTimerName := []\<rparr>))"

definition changeSavedTimerName :: "string \<Rightarrow> App \<Rightarrow> App" where
  "changeSavedTimerName v s = s\<lparr>savedTimerName := v\<rparr>"

definition loadTimer :: "SavedTimer \<Rightarrow> App \<Rightarrow> App" where
  "loadTimer timer s =
     s\<lparr>instructions := timer_instructions timer,
       savedTimerName := timer_name timer,
       loadedTimerId := Some (timer_id timer)\<rparr>"

definition editSavedTimer :: "nat \<Rightarrow> string option \<Rightarrow> App \<Rightarrow> App" where
  "editSavedTimer i answer s =
     (case answer of
        None \<Rightarrow> s
      | Some newName \<Rightarrow>
          if newName = [] then s
          else s\<lparr>savedTimers :=
                   map (\<lambda>timer. if timer_id timer = i then timer\<lparr>timer_name := newName\<rparr>
                                else timer)
                     (savedTimers s)\<rparr>)"

definition deleteSavedTimer :: "nat \<Rightarrow> App \<Rightarrow> App" where
  "deleteSavedTimer i s =
     s\<lparr>savedTimers := filter (\<lambda>timer. timer_id timer \<noteq> i) (savedTimers s)\<rparr>"

text \<open>
  Loading the page again mounts the component afresh: every state and reference cell
  has its initial value, and the mount effect reads the saved timers back from
  \<^verbatim>\<open>localStorage\<close>, where the save effect has written them after each change.
\<close>

definition remount :: "App \<Rightarrow> App" where
  "remount s = init_app\<lparr>savedTimers := savedTimers s\<rparr>"

subsection \<open>Events\<close>

text \<open>
  What can happen to the component: the handlers of its controls, the delivery of a
  timer callback for a handle, and a reload of the page. \<open>Load n\<close> is the load button of
  the \<open>n\<close>-th saved timer of the list shown. A callback is delivered for live handles
  only.
\<close>

datatype Event =
    ChangeTimeInput string
  | AddTime
  | ChangeRepeatInput string
  | AddRepeat
  | Edit nat "string option list"
  | Delete nat
  | Clear
  | Start
  | Stop
  | EditCurrent "string option"
  | TickFire nat
  | ChangeName string
  | Save
  | Load nat
  | EditSaved nat "string option"
  | DeleteSaved nat
  | Reload

fun handle :: "Event \<Rightarrow> App \<Rightarrow> App" where
  "handle (ChangeTimeInput v) s = changeTimeInput v s"
| "handle AddTime s = addTimeInstruction s"
| "handle (ChangeRepeatInput v) s = changeRepeatInput v s"
| "handle AddRepeat s = addRepeatInstruction s"
| "handle (Edit i answers) s = editInstruction i answers s"
| "handle (Delete i) s = deleteInstruction i s"
| "handle Clear s = clearInstructions s"
| "handle Start s = startProgram s"
| "handle Stop s = stopProgram s"
| "handle (EditCurrent answer) s = editCurrentInstruction answer s"
| "handle (TickFire h) s = (if h \<in> set (intervals s) then interval_callback s else s)"
| "handle (ChangeName v) s = changeSavedTimerName v s"
| "handle Save s = saveOrUpdateTimer s"
| "handle (Load n) s = (if n < length (savedTimers s) then loadTimer (savedTimers s ! n) s else s)"
| "handle (EditSaved i answer) s = editSavedTimer i answer s"
| "handle (DeleteSaved i) s = deleteSavedTimer i s"
| "handle Reload s = remount s"

fun stores_sequence :: "Event \<Rightarrow> App \<Rightarrow> bool" where
  "stores_sequence Start s = (length (flattenInstructionsEntire (instructions s)) \<noteq> 0)"
| "stores_sequence (EditCurrent answer) s = edit_accepted answer s"
| "stores_sequence e s = False"

definition step :: "Event \<Rightarrow> App \<Rightarrow> App" where
  "step e s = rerender (stores_sequence e s) s (handle e s)"

definition run :: "Event list \<Rightarrow> App \<Rightarrow> App" where
  "run es s = foldl (\<lambda>s e. step e s) s es"

subsection \<open>Invariant of the interval timer\<close>

text \<open>
  While the program is running exactly one interval is live, the one whose handle
  \<^verbatim>\<open>programIntervalRef\<close> holds; while it is not running none is. The second
  predicate is what every handler leaves behind before the effect is run again.
\<close>

definition one_interval :: "App \<Rightarrow> bool" where
  "one_interval s =
     (0 < nextHandle s \<and>
      (if isProgramRunning s
       then programIntervalRef s \<noteq> None \<and> programIntervalRef s \<noteq> Some 0
            \<and> intervals s = [the (programIntervalRef s)]
       else intervals s = []))"

definition at_most_ref :: "App \<Rightarrow> bool" where
  "at_most_ref s =
     (0 < nextHandle s \<and>
      (intervals s = [] \<or>
       programIntervalRef s \<noteq> None \<and> programIntervalRef s \<noteq> Some 0
       \<and> intervals s = [the (programIntervalRef s)]))"

subsection \<open>Invariant of the identifiers\<close>

text \<open>
  The identifiers of a list are pairwise distinct and below the counter; a state keeps
  this for the list being edited and for the list of every saved timer.
\<close>

definition ids_below :: "nat \<Rightarrow> Instruction list \<Rightarrow> bool" where
  "ids_below n insts =
     (distinct (map inst_id insts) \<and> list_all (\<lambda>inst. inst_id inst < n) insts)"

definition session_ids :: "App \<Rightarrow> bool" where
  "session_ids s =
     (ids_below (instructionIdRef s) (instructions s)
      \<and> list_all (\<lambda>timer. ids_below (instructionIdRef s) (timer_instructions timer))
          (savedTimers s))"

section \<open>Properties of the sequence expander\<close>

lemma push_copies_replicate:
  "push_copies i n copy flattened = flattened @ concat (replicate (nat (n - i)) copy)"
proof (induction i n copy flattened rule: push_copies.induct)
  case (1 i n copy flattened)
  show ?case
  proof (cases "i < n")
    case True
    then have "nat (n - i) = Suc (nat (n - (i + 1)))"
      by simp
    with True "1" show ?thesis
      by (simp add: push_copies.simps [of i])
  next
    case False
    then show ?thesis
      by (simp add: push_copies.simps [of i])
  qed
qed

lemma flatten_loop_append:
  "flatten_loop acc (xs @ ys) = flatten_loop (flatten_loop acc xs) ys"
proof (induction xs arbitrary: acc)
  case Nil
  show ?case by simp
next
  case (Cons x xs)
  then show ?case by (cases x) simp_all
qed

text \<open>
  C1. The expander processes the instructions in order. A time instruction appends its
  entry to what has been flattened so far; a repeat instruction with count \<open>k\<close> appends
  \<open>k\<close> copies of a snapshot of what has been flattened so far (none when \<open>k\<close> is not
  positive). The two examples of the specification: the durations of the expansion of
  Wait 5, Repeat 2, Wait 3 are 5, 5, 5, 3, and those of Wait 2, Wait 3, Repeat 1 are
  2, 3, 2, 3.
\<close>

theorem C1_expander_in_order:
  "flattenInstructionsEntire (instrs @ [Time t]) = flattenInstructionsEntire instrs @ [t]
   \<and> flattenInstructionsEntire (instrs @ [Repeat i k]) =
       flattenInstructionsEntire instrs
         @ concat (replicate (nat k) (flattenInstructionsEntire instrs))
   \<and> map time (flattenInstructionsEntire
         [Time \<lparr>id' = 0, time = 5\<rparr>, Repeat 1 2, Time \<lparr>id' = 2, time = 3\<rparr>])
       = [5, 5, 5, 3]
   \<and> map time (flattenInstructionsEntire
         [Time \<lparr>id' = 0, time = 2\<rparr>, Time \<lparr>id' = 1, time = 3\<rparr>, Repeat 2 1])
       = [2, 3, 2, 3]"
  by (simp add: flattenInstructionsEntire_def flatten_loop_append push_copies_replicate
      eval_nat_numeral)

lemma flatten_loop_set:
  "set (flatten_loop acc instrs) \<subseteq> set acc \<union> {t. Time t \<in> set instrs}"
proof (induction acc instrs rule: flatten_loop.induct)
  case (1 flattened)
  show ?case by simp
next
  case (2 flattened t instrs)
  then show ?case by auto
next
  case (3 flattened i k instrs)
  have "set (push_copies 0 k flattened flattened) \<subseteq> set flattened"
    by (auto simp: push_copies_replicate)
  with 3 show ?case by auto
qed

section \<open>Rounding\<close>

lemma bit_length_le: "n < 2 ^ k \<Longrightarrow> bit_length n \<le> k"
proof (induction k arbitrary: n)
  case 0
  then show ?case by (simp add: bit_length.simps [of n])
next
  case (Suc k)
  have "n div 2 < 2 ^ k"
    using Suc.prems by simp
  then have "bit_length (n div 2) \<le> k"
    by (rule Suc.IH)
  then show ?case
    by (simp add: bit_length.simps [of n])
qed

lemma round_half_even_one: "round_half_even a 1 = a"
  by (simp add: round_half_even_def)

lemma fl_small: "\<bar>n\<bar> < 2 ^ 53 \<Longrightarrow> fl n = n"
proof -
  assume "\<bar>n\<bar> < 2 ^ 53"
  then have "bit_length \<bar>n\<bar> \<le> 53"
    by (rule bit_length_le)
  then show ?thesis
    by (simp add: fl_def round_half_even_one mult_sgn_abs)
qed

lemma norm_shift_reaches:
  "0 < a \<Longrightarrow> 0 < d \<Longrightarrow> 2 ^ 52 \<le> a * 2 ^ norm_shift a d k div d"
proof (induction a d k rule: norm_shift.induct)
  case (1 a d k)
  show ?case
  proof (cases "a * 2 ^ k div d < 2 ^ 52")
    case True
    with "1" show ?thesis
      by (simp add: norm_shift.simps [of a d k])
  next
    case False
    then show ?thesis
      by (simp add: norm_shift.simps [of a d k])
  qed
qed

lemma round_half_even_cases:
  assumes "0 < b"
  shows "round_half_even a b = a div b \<or>
         (round_half_even a b = a div b + 1 \<and> b \<le> 2 * (a mod b))"
  by (auto simp: round_half_even_def Let_def)

lemma scaled_round_floor:
  fixes a d K :: int
  assumes a: "0 \<le> a" and d: "0 < d" and K: "0 < K"
    and big: "d < 2 * K"
  shows "round_half_even (a * K) d div K = a div d"
proof -
  define q where "q = a div d"
  define r where "r = a mod d"
  have aq: "a = q * d + r" and r: "0 \<le> r" "r < d"
    using d by (simp_all add: q_def r_def)
  define Q where "Q = a * K div d"
  define R where "R = a * K mod d"
  have AQ: "a * K = Q * d + R" and R: "0 \<le> R" "R < d"
    using d by (simp_all add: Q_def R_def)
  define x where "x = round_half_even (a * K) d"
  have x: "x = Q \<or> (x = Q + 1 \<and> d \<le> 2 * R)"
    using round_half_even_cases [OF d, of "a * K"] by (simp add: x_def Q_def R_def)
  have lowQ: "q * K \<le> Q"
  proof -
    have "q * K * d \<le> a * K"
      using aq r K by (simp add: algebra_simps)
    then have "q * K * d div d \<le> a * K div d"
      using d by (rule zdiv_mono1)
    moreover have "q * K * d div d = q * K"
      using d by simp
    ultimately show ?thesis
      by (simp add: Q_def)
  qed
  have upA: "a * K \<le> (q + 1) * K * d - K"
  proof -
    have "a \<le> q * d + d - 1"
      using aq r by simp
    then have "a * K \<le> (q * d + d - 1) * K"
      using K by (simp add: mult_right_mono)
    then show ?thesis
      by (simp add: algebra_simps)
  qed
  have Qlt: "Q < (q + 1) * K"
  proof (rule ccontr)
    assume "\<not> Q < (q + 1) * K"
    then have "(q + 1) * K * d \<le> Q * d"
      using d by (simp add: mult_right_mono)
    with AQ R upA K show False
      by linarith
  qed
  have xlt: "x < (q + 1) * K"
  proof (rule ccontr)
    assume n: "\<not> x < (q + 1) * K"
    with x Qlt have Qe: "Q = (q + 1) * K - 1" and up: "d \<le> 2 * R"
      by auto
    have "Q * d = (q + 1) * K * d - d"
      by (simp add: Qe algebra_simps)
    with AQ upA have "R \<le> d - K"
      by linarith
    with up big show False
      by linarith
  qed
  have xge: "q * K \<le> x"
    using x lowQ by auto
  have "x div K = q"
  proof (rule int_div_pos_eq [of x K q "x - q * K"])
    show "x = K * q + (x - q * K)" by (simp add: algebra_simps)
    show "0 \<le> x - q * K" using xge by simp
    show "x - q * K < K" using xlt by (simp add: algebra_simps)
  qed
  then show ?thesis
    by (simp add: x_def q_def)
qed

lemma floor_quot_small:
  assumes "0 \<le> a" and "a < 2 ^ 53" and "0 < d"
  shows "floor_quot a d = a div d"
proof (cases "a = 0")
  case True
  then show ?thesis
    by (simp add: floor_quot_def norm_shift.simps [of 0] round_half_even_def)
next
  case False
  with assms have a: "0 < a" by simp
  have "a div d \<le> a div 1"
    using assms by (intro zdiv_mono2) simp_all
  then have "a div d \<le> a"
    by simp
  then have small: "\<not> 2 ^ 53 \<le> a div d"
    using assms by linarith
  define k where "k = norm_shift a d 0"
  have "2 ^ 52 \<le> a * 2 ^ k div d"
    unfolding k_def by (rule norm_shift_reaches [OF a assms(3)])
  then have "2 ^ 52 * d \<le> a * 2 ^ k div d * d"
    using assms(3) by (simp add: mult_right_mono)
  also have "\<dots> \<le> a * 2 ^ k"
    using assms(3) by (metis div_mult_mod_eq le_add_same_cancel1 pos_mod_sign)
  also have "\<dots> < 2 ^ 53 * 2 ^ k"
    using assms(2) by simp
  finally have "d < 2 * 2 ^ k"
    by simp
  then have "round_half_even (a * 2 ^ k) d div 2 ^ k = a div d"
    using assms by (intro scaled_round_floor) simp_all
  with a small show ?thesis
    by (simp add: floor_quot_def Let_def k_def)
qed

section \<open>Formatting and parsing\<close>

lemma digit_char_props:
  assumes "d < 10"
  shows "isDigit (digit_char d)" and "digit_val (digit_char d) = d"
proof -
  have v: "(of_char (digit_char d) :: nat) = 48 + d"
    using assms by (simp add: digit_char_def)
  show "isDigit (digit_char d)"
    using assms by (simp add: isDigit_def v)
  show "digit_val (digit_char d) = d"
    by (simp add: digit_val_def v)
qed

lemma isDigit_not_special:
  assumes "isDigit c"
  shows "c \<noteq> CHR '':''" "c \<noteq> CHR ''-''" "c \<noteq> CHR ''+''" "\<not> isWhiteSpace c"
proof -
  have ne: "\<And>x. \<not> isDigit x \<Longrightarrow> c \<noteq> x"
    using assms by auto
  show "c \<noteq> CHR '':''" "c \<noteq> CHR ''-''" "c \<noteq> CHR ''+''"
    by (rule ne, simp add: isDigit_def)+
  have "c \<noteq> CHR 0x09" "c \<noteq> CHR 0x0A" "c \<noteq> CHR 0x0B" "c \<noteq> CHR 0x0C" "c \<noteq> CHR 0x0D"
    "c \<noteq> CHR '' ''" "c \<noteq> CHR 0xA0"
    by (rule ne, simp add: isDigit_def)+
  then show "\<not> isWhiteSpace c"
    by (simp add: isWhiteSpace_def)
qed

lemma sign_not_white: "\<not> isWhiteSpace (CHR ''-'')" "\<not> isWhiteSpace (CHR ''+'')"
  by (simp_all add: isWhiteSpace_def)

lemma sign_not_digit: "\<not> isDigit (CHR ''-'')" "\<not> isDigit (CHR ''+'')"
  by (simp_all add: isDigit_def)

lemma digits_val_snoc: "digits_val (ds @ [c]) = digits_val ds * 10 + int (digit_val c)"
  by (simp add: digits_val_def)

lemma digits_val_nonneg: "0 \<le> digits_val ds"
  by (induction ds rule: rev_induct) (simp_all add: digits_val_snoc, simp add: digits_val_def)

lemma digits_numeral: "isNumeral (digits n)"
proof (induction n rule: digits.induct)
  case (1 n)
  show ?case
  proof (cases "n < 10")
    case True
    then show ?thesis
      by (simp add: digits.simps [of n] isNumeral_def digit_char_props)
  next
    case False
    then have "nat (n mod 10) < 10"
      by simp
    with False "1" show ?thesis
      by (simp add: digits.simps [of n] isNumeral_def digit_char_props)
  qed
qed

lemma digits_val_digits: "0 \<le> n \<Longrightarrow> digits_val (digits n) = n"
proof (induction n rule: digits.induct)
  case (1 n)
  show ?case
  proof (cases "n < 10")
    case True
    with "1.prems" show ?thesis
      by (simp add: digits.simps [of n] digits_val_def digit_char_props)
  next
    case False
    then have m: "nat (n mod 10) < 10"
      by simp
    from False "1.prems" have "digits_val (digits (n div 10)) = n div 10"
      by (intro "1.IH") simp_all
    with False show ?thesis
      by (simp add: digits.simps [of n] digits_val_snoc digit_char_props(2) [OF m])
  qed
qed

lemma zero_char: "isDigit (CHR ''0'')" "digit_val (CHR ''0'') = 0"
  by (simp_all add: isDigit_def digit_val_def)

lemma digits_val_zeros: "digits_val (replicate k (CHR ''0'') @ ds) = digits_val ds"
proof -
  have "foldl (\<lambda>acc c. acc * 10 + int (digit_val c)) 0 (replicate k (CHR ''0'')) = 0"
    by (induction k) (simp_all add: zero_char)
  then show ?thesis
    by (simp add: digits_val_def)
qed

lemma padStart2_numeral: "isNumeral ds \<Longrightarrow> isNumeral (padStart2 ds)"
  by (auto simp: isNumeral_def padStart2_def zero_char list_all_iff)

lemma padStart2_val: "digits_val (padStart2 ds) = digits_val ds"
  by (simp add: padStart2_def digits_val_zeros)

text \<open>What \<open>parseInt\<close> reads: white space, one sign, digits, anything.\<close>

lemma parseInt_reads:
  assumes ws: "list_all isWhiteSpace ws" and ds: "isNumeral ds"
    and rest: "rest = [] \<or> \<not> isDigit (hd rest)"
  shows "parseInt (ws @ ds @ rest) = Some (fl (digits_val ds))"
    and "parseInt (ws @ ''+'' @ ds @ rest) = Some (fl (digits_val ds))"
    and "parseInt (ws @ ''-'' @ ds @ rest) = Some (fl (- digits_val ds))"
proof -
  from ds obtain c cs where dsc: "ds = c # cs" and c: "isDigit c" and all: "\<forall>x \<in> set ds. isDigit x"
    by (cases ds) (auto simp: isNumeral_def list_all_iff)
  have tw: "takeWhile isDigit (ds @ rest) = ds"
    using all rest by (cases rest) (simp_all add: takeWhile_append2 takeWhile_eq_all_conv)
  have wsa: "\<forall>x \<in> set ws. isWhiteSpace x"
    using ws by (simp add: list_all_iff)
  have d1: "dropWhile isWhiteSpace (ws @ ds @ rest) = ds @ rest"
    using wsa c by (simp add: dropWhile_append2 dsc isDigit_not_special)
  have d2: "dropWhile isWhiteSpace (ws @ ''+'' @ ds @ rest) = ''+'' @ ds @ rest"
    using wsa by (simp add: dropWhile_append2 sign_not_white)
  have d3: "dropWhile isWhiteSpace (ws @ ''-'' @ ds @ rest) = ''-'' @ ds @ rest"
    using wsa by (simp add: dropWhile_append2 sign_not_white)
  have ne: "ds \<noteq> []" "hd (ds @ rest) \<noteq> CHR ''-''" "hd (ds @ rest) \<noteq> CHR ''+''"
    using c by (simp_all add: dsc isDigit_not_special)
  show "parseInt (ws @ ds @ rest) = Some (fl (digits_val ds))"
    unfolding parseInt_def d1 Let_def using ne by (simp add: tw)
  show "parseInt (ws @ ''+'' @ ds @ rest) = Some (fl (digits_val ds))"
    unfolding parseInt_def d2 Let_def using ne by (simp add: tw)
  show "parseInt (ws @ ''-'' @ ds @ rest) = Some (fl (- digits_val ds))"
    unfolding parseInt_def d3 Let_def using ne by (simp add: tw)
qed

lemma parseInt_numeral: "isNumeral ds \<Longrightarrow> parseInt ds = Some (fl (digits_val ds))"
  using parseInt_reads(1) [of "[]" ds "[]"] by simp

lemma parseInt_shape:
  "(parseInt f = None) =
     (\<nexists>ws sg ds rest. f = ws @ sg @ ds @ rest \<and> list_all isWhiteSpace ws
        \<and> (sg = [] \<or> sg = ''+'' \<or> sg = ''-'') \<and> isNumeral ds)"
proof
  assume none: "parseInt f = None"
  show "\<nexists>ws sg ds rest. f = ws @ sg @ ds @ rest \<and> list_all isWhiteSpace ws
        \<and> (sg = [] \<or> sg = ''+'' \<or> sg = ''-'') \<and> isNumeral ds"
  proof
    assume "\<exists>ws sg ds rest. f = ws @ sg @ ds @ rest \<and> list_all isWhiteSpace ws
        \<and> (sg = [] \<or> sg = ''+'' \<or> sg = ''-'') \<and> isNumeral ds"
    then obtain ws sg ds rest where f: "f = ws @ sg @ ds @ rest"
      and ws: "list_all isWhiteSpace ws" and sg: "sg = [] \<or> sg = ''+'' \<or> sg = ''-''"
      and ds: "isNumeral ds"
      by blast
    define ds' where "ds' = ds @ takeWhile isDigit rest"
    define rest' where "rest' = dropWhile isDigit rest"
    have f': "f = ws @ sg @ ds' @ rest'"
      by (simp add: f ds'_def rest'_def)
    have n: "isNumeral ds'"
      using ds by (auto simp: ds'_def isNumeral_def list_all_iff dest: set_takeWhileD)
    have r: "rest' = [] \<or> \<not> isDigit (hd rest')"
      unfolding rest'_def by (metis hd_dropWhile)
    from sg have "parseInt f \<noteq> None"
      using parseInt_reads [OF ws n r] by (auto simp: f')
    with none show False by simp
  qed
next
  assume no: "\<nexists>ws sg ds rest. f = ws @ sg @ ds @ rest \<and> list_all isWhiteSpace ws
        \<and> (sg = [] \<or> sg = ''+'' \<or> sg = ''-'') \<and> isNumeral ds"
  show "parseInt f = None"
  proof (rule ccontr)
    assume some: "parseInt f \<noteq> None"
    define ws where "ws = takeWhile isWhiteSpace f"
    define t where "t = dropWhile isWhiteSpace f"
    define sg where "sg = (if t \<noteq> [] \<and> (hd t = CHR ''-'' \<or> hd t = CHR ''+'') then [hd t] else [])"
    define u where "u = (if t \<noteq> [] \<and> (hd t = CHR ''-'' \<or> hd t = CHR ''+'') then tl t else t)"
    define ds where "ds = takeWhile isDigit u"
    define rest where "rest = dropWhile isDigit u"
    have "f = ws @ t"
      by (simp add: ws_def t_def)
    moreover have "t = sg @ u"
      by (simp add: sg_def u_def)
    moreover have "u = ds @ rest"
      by (simp add: ds_def rest_def)
    ultimately have f: "f = ws @ sg @ ds @ rest"
      by simp
    have ws: "list_all isWhiteSpace ws"
      by (auto simp: ws_def list_all_iff dest: set_takeWhileD)
    have sg: "sg = [] \<or> sg = ''+'' \<or> sg = ''-''"
      by (auto simp: sg_def)
    have "ds \<noteq> []"
      using some unfolding parseInt_def Let_def t_def [symmetric] u_def [symmetric]
        ds_def [symmetric]
      by (simp split: if_splits)
    then have "isNumeral ds"
      by (auto simp: isNumeral_def ds_def list_all_iff dest: set_takeWhileD)
    with f ws sg no show False
      by blast
  qed
qed

lemma split_on_no_sep: "sep \<notin> set a \<Longrightarrow> split_on sep a = [a]"
  by (induction a) auto

lemma split_on_field: "sep \<notin> set a \<Longrightarrow> split_on sep (a @ sep # b) = a # split_on sep b"
  by (induction a) auto

lemma numeral_no_colon: "isNumeral ds \<Longrightarrow> CHR '':'' \<notin> set ds"
  using isDigit_not_special(1) by (auto simp: isNumeral_def list_all_iff)

lemma hms_sum:
  fixes t :: int
  shows "t div 3600 * 3600 + t mod 3600 div 60 * 60 + t mod 60 = t"
proof -
  have "t mod 3600 mod 60 = t mod 60"
    by (simp add: mod_mod_cancel)
  moreover have "t mod 3600 div 60 * 60 + t mod 3600 mod 60 = t mod 3600"
    by (rule div_mult_mod_eq)
  moreover have "t div 3600 * 3600 + t mod 3600 = t"
    by (rule div_mult_mod_eq)
  ultimately show ?thesis
    by linarith
qed

lemma combine_parts_exact:
  assumes "0 \<le> h" "0 \<le> m" "0 \<le> s"
  shows "h * 3600 + m * 60 + s < 2 ^ 53 \<Longrightarrow>
           combine_parts [h, m, s] = Some (h * 3600 + m * 60 + s)"
    and "m * 60 + s < 2 ^ 53 \<Longrightarrow> combine_parts [m, s] = Some (m * 60 + s)"
proof -
  assume b: "h * 3600 + m * 60 + s < 2 ^ 53"
  have "\<bar>h * 3600\<bar> < 2 ^ 53" "\<bar>m * 60\<bar> < 2 ^ 53" "\<bar>h * 3600 + m * 60\<bar> < 2 ^ 53"
    "\<bar>h * 3600 + m * 60 + s\<bar> < 2 ^ 53"
    using assms b by simp_all
  then show "combine_parts [h, m, s] = Some (h * 3600 + m * 60 + s)"
    by (simp only: combine_parts.simps fl_small)
next
  assume b: "m * 60 + s < 2 ^ 53"
  have "\<bar>m * 60\<bar> < 2 ^ 53" "\<bar>m * 60 + s\<bar> < 2 ^ 53"
    using assms b by simp_all
  then show "combine_parts [m, s] = Some (m * 60 + s)"
    by (simp only: combine_parts.simps fl_small)
qed

lemma formatTime_small:
  assumes "0 \<le> t" and "t < 2 ^ 53"
  shows "formatTime t = padStart2 (digits (t div 3600)) @ '':''
           @ padStart2 (digits (t mod 3600 div 60)) @ '':''
           @ padStart2 (digits (t mod 60))"
proof -
  have r: "js_rem t 3600 = t mod 3600" "js_rem t 60 = t mod 60"
    using assms by (cases "t = 0"; simp add: js_rem_def)+
  have "t mod 3600 < 3600"
    by simp
  then have "t mod 3600 < 2 ^ 53"
    by (rule less_trans) simp
  then have m: "0 \<le> t mod 3600" "t mod 3600 < 2 ^ 53"
    by simp_all
  have q: "floor_quot t 3600 = t div 3600" "floor_quot (t mod 3600) 60 = t mod 3600 div 60"
    using assms m by (simp_all add: floor_quot_small)
  have "t div 3600 \<le> t div 1"
    using assms by (intro zdiv_mono2) simp_all
  then have h: "(t div 3600 < 0) = False" "(t div 3600 < 2 ^ 53) = True"
    using assms by (simp_all add: pos_imp_zdiv_neg_iff)
  have "t mod 3600 div 60 \<le> t mod 3600 div 1"
    by (intro zdiv_mono2) simp_all
  then have mi: "(t mod 3600 div 60 < 0) = False" "(t mod 3600 div 60 < 2 ^ 53) = True"
    using m by (simp_all add: pos_imp_zdiv_neg_iff)
  have "t mod 60 < 60"
    by simp
  then have "t mod 60 < 2 ^ 53"
    by (rule less_trans) simp
  then have se: "(t mod 60 < 0) = False" "(t mod 60 < 2 ^ 53) = True"
    by simp_all
  show ?thesis
    unfolding formatTime_def r q toString_def number_digits_def Let_def h mi se if_False if_True
    by (rule refl)
qed

text \<open>
  C4, as amended. Parsing inverts formatting on the safe integers: for every integer
  number of seconds \<open>t\<close> from 0 to \<open>2 ^ 53 - 1 = 9007199254740991\<close>,
  \<^verbatim>\<open>parseTimeInput(formatTime(t))\<close> is \<open>t\<close>.
\<close>

theorem C4_roundtrip_safe_integers:
  "0 \<le> t \<Longrightarrow> t \<le> 9007199254740991 \<Longrightarrow> parseTimeInput (formatTime t) = Some t"
proof -
  assume t: "0 \<le> t" and b: "t \<le> 9007199254740991"
  then have lt: "t < 2 ^ 53"
    by simp
  define hq where "hq = t div 3600"
  define mq where "mq = t mod 3600 div 60"
  define sq where "sq = t mod 60"
  define h where "h = padStart2 (digits hq)"
  define m where "m = padStart2 (digits mq)"
  define s where "s = padStart2 (digits sq)"
  have nn: "0 \<le> hq" "0 \<le> mq" "0 \<le> sq"
    using t by (simp_all add: hq_def mq_def sq_def pos_imp_zdiv_nonneg_iff)
  have total: "hq * 3600 + mq * 60 + sq = t"
    unfolding hq_def mq_def sq_def by (rule hms_sum)
  have small: "\<bar>hq\<bar> < 2 ^ 53" "\<bar>mq\<bar> < 2 ^ 53" "\<bar>sq\<bar> < 2 ^ 53"
    using nn total lt by linarith+
  have num: "isNumeral h" "isNumeral m" "isNumeral s"
    by (simp_all add: h_def m_def s_def padStart2_numeral digits_numeral)
  have dv: "digits_val h = hq" "digits_val m = mq" "digits_val s = sq"
    using nn by (simp_all add: h_def m_def s_def padStart2_val digits_val_digits)
  have val: "parseInt h = Some hq" "parseInt m = Some mq" "parseInt s = Some sq"
    using small by (simp_all add: parseInt_numeral num dv fl_small)
  have sp: "split_on (CHR '':'') (h @ CHR '':'' # m @ CHR '':'' # s) = [h, m, s]"
    using num by (simp add: split_on_field split_on_no_sep numeral_no_colon)
  have ft: "formatTime t = h @ CHR '':'' # m @ CHR '':'' # s"
    using t lt by (simp add: formatTime_small h_def m_def s_def hq_def mq_def sq_def)
  have "combine_parts [hq, mq, sq] = Some (hq * 3600 + mq * 60 + sq)"
    using nn total lt by (intro combine_parts_exact) simp_all
  then show ?thesis
    unfolding parseTimeInput_def ft sp by (simp add: val total)
qed

theorem C4_roundtrip_safe_integers_witness:
  "(0::int) \<le> 3725 \<and> (3725::int) \<le> 9007199254740991
   \<and> parseTimeInput (formatTime 3725) = Some 3725"
  using C4_roundtrip_safe_integers [of 3725] by simp

text \<open>
  C4 as stated does not hold for every non-negative integer. \<open>2 ^ 55 + 56\<close> is a
  number. It is formatted as \<^verbatim>\<open>10007999171934:27:04\<close>; parsing that adds
  \<open>27 * 60\<close> to \<open>10007999171934 * 3600\<close>, and the sum is rounded down by 4, as is the
  sum with the 4 seconds: the result is 8 less than \<open>t\<close>.
\<close>

theorem C4_counterexample:
  "fl 36028797018964024 = 36028797018964024
   \<and> formatTime 36028797018964024 = ''10007999171934:27:04''
   \<and> parseTimeInput (formatTime 36028797018964024) = Some 36028797018964016"
  by code_simp

lemma those_None_iff: "(those xs = None) = (None \<in> set xs)"
  by (induction xs) (auto split: option.splits)

lemma those_Some_length: "those xs = Some ys \<Longrightarrow> length ys = length xs"
  by (induction xs arbitrary: ys) (auto split: option.splits)

lemma combine_parts_None_iff: "(combine_parts ps = None) = (ps = [] \<or> 3 < length ps)"
  by (cases ps rule: combine_parts.cases) simp_all

lemma split_on_not_Nil: "split_on sep s \<noteq> []"
  by (induction s) (auto split: list.splits)

lemma parseTimeInput_None_iff:
  "(parseTimeInput input = None) =
     (3 < length (split_on (CHR '':'') input)
      \<or> list_ex (\<lambda>f. parseInt f = None) (split_on (CHR '':'') input))"
proof (cases "those (map parseInt (split_on (CHR '':'') input))")
  case None
  then have "None \<in> set (map parseInt (split_on (CHR '':'') input))"
    by (simp add: those_None_iff)
  then have "list_ex (\<lambda>f. parseInt f = None) (split_on (CHR '':'') input)"
    by (auto simp: list_ex_iff intro: sym)
  with None show ?thesis
    by (simp add: parseTimeInput_def)
next
  case (Some parts)
  then have "None \<notin> set (map parseInt (split_on (CHR '':'') input))"
    by (metis those_None_iff option.distinct(1))
  then have no: "\<not> list_ex (\<lambda>f. parseInt f = None) (split_on (CHR '':'') input)"
    by (force simp: list_ex_iff image_iff)
  have len: "length parts = length (split_on (CHR '':'') input)"
    using those_Some_length [OF Some] by simp
  then have "parts \<noteq> []"
    using split_on_not_Nil [of "CHR '':''" input] by auto
  with Some no len show ?thesis
    by (simp add: parseTimeInput_def combine_parts_None_iff)
qed

lemma parseInt_no_digit: "\<not> list_ex isDigit f \<Longrightarrow> parseInt f = None"
proof -
  assume nd: "\<not> list_ex isDigit f"
  define t where "t = dropWhile isWhiteSpace f"
  define u where "u = (if t \<noteq> [] \<and> (hd t = CHR ''-'' \<or> hd t = CHR ''+'') then tl t else t)"
  have "set t \<subseteq> set f"
    unfolding t_def by (rule set_dropWhileD [THEN subsetI]) 
  moreover have "set u \<subseteq> set t"
    unfolding u_def by (cases t) auto
  ultimately have "\<forall>c \<in> set u. \<not> isDigit c"
    using nd by (auto simp: list_ex_iff)
  then have "takeWhile isDigit u = []"
    by (cases u) auto
  then show ?thesis
    unfolding parseInt_def Let_def t_def [symmetric] u_def [symmetric] by simp
qed


text \<open>
  C5, as amended. \<^verbatim>\<open>parseTimeInput\<close> returns \<^verbatim>\<open>null\<close> exactly when the input has more
  than three colon-separated fields or \<^verbatim>\<open>parseInt\<close> of some field is \<^verbatim>\<open>NaN\<close>. The
  fields \<^verbatim>\<open>parseInt\<close> reads are exactly those made of white space, at most one sign,
  one or more digits and then anything; a field without any digit is not read. Such a
  field has the value of its digits up to the first character that is not a digit,
  negated after a minus sign, when that value is at most \<open>2 ^ 53 - 1\<close>. Every input
  of one, two or three fields that are non-negative integer numerals is accepted, and
  it is read as SS, MM:SS and HH:MM:SS when that total is at most \<open>2 ^ 53 - 1\<close>.
\<close>

theorem C5_parse_failure_exactly:
  "(parseTimeInput input = None) =
     (3 < length (split_on (CHR '':'') input)
      \<or> list_ex (\<lambda>f. parseInt f = None) (split_on (CHR '':'') input))
   \<and> (parseInt f = None) =
       (\<nexists>ws sg ds rest. f = ws @ sg @ ds @ rest \<and> list_all isWhiteSpace ws
          \<and> (sg = [] \<or> sg = ''+'' \<or> sg = ''-'') \<and> isNumeral ds)
   \<and> (\<not> list_ex isDigit f \<longrightarrow> parseInt f = None)
   \<and> (list_all isWhiteSpace ws \<and> isNumeral ds \<and> (rest = [] \<or> \<not> isDigit (hd rest))
       \<and> digits_val ds \<le> 9007199254740991 \<longrightarrow>
        parseInt (ws @ ds @ rest) = Some (digits_val ds)
        \<and> parseInt (ws @ ''+'' @ ds @ rest) = Some (digits_val ds)
        \<and> parseInt (ws @ ''-'' @ ds @ rest) = Some (- digits_val ds))
   \<and> (isNumeral a \<and> isNumeral b \<and> isNumeral c \<longrightarrow>
        parseTimeInput a \<noteq> None
        \<and> parseTimeInput (a @ '':'' @ b) \<noteq> None
        \<and> parseTimeInput (a @ '':'' @ b @ '':'' @ c) \<noteq> None)
   \<and> (isNumeral a \<and> digits_val a \<le> 9007199254740991 \<longrightarrow>
        parseTimeInput a = Some (digits_val a))
   \<and> (isNumeral a \<and> isNumeral b \<and> digits_val a * 60 + digits_val b \<le> 9007199254740991 \<longrightarrow>
        parseTimeInput (a @ '':'' @ b) = Some (digits_val a * 60 + digits_val b))
   \<and> (isNumeral a \<and> isNumeral b \<and> isNumeral c
       \<and> digits_val a * 3600 + digits_val b * 60 + digits_val c \<le> 9007199254740991 \<longrightarrow>
        parseTimeInput (a @ '':'' @ b @ '':'' @ c)
          = Some (digits_val a * 3600 + digits_val b * 60 + digits_val c))"
proof -
  have sp1: "split_on (CHR '':'') a = [a]" if "isNumeral a" for a
    using that by (simp add: split_on_no_sep numeral_no_colon)
  have sp2: "split_on (CHR '':'') (a @ '':'' @ b) = [a, b]" if "isNumeral a" "isNumeral b" for a b
    using that by (simp add: split_on_field split_on_no_sep numeral_no_colon)
  have sp3: "split_on (CHR '':'') (a @ '':'' @ b @ '':'' @ c) = [a, b, c]"
    if "isNumeral a" "isNumeral b" "isNumeral c" for a b c
    using that by (simp add: split_on_field split_on_no_sep numeral_no_colon)
  have acc: "parseTimeInput a \<noteq> None \<and> parseTimeInput (a @ '':'' @ b) \<noteq> None
      \<and> parseTimeInput (a @ '':'' @ b @ '':'' @ c) \<noteq> None"
    if "isNumeral a" "isNumeral b" "isNumeral c"
    using that unfolding parseTimeInput_def
    by (simp add: sp1 sp2 sp3 parseInt_numeral del: append.simps)
  have small: "fl (digits_val x) = digits_val x" "fl (- digits_val x) = - digits_val x"
    if "digits_val x \<le> 9007199254740991" for x
    using that digits_val_nonneg [of x] by (simp_all add: fl_small)
  have reads: "parseInt (ws @ ds @ rest) = Some (digits_val ds)
        \<and> parseInt (ws @ ''+'' @ ds @ rest) = Some (digits_val ds)
        \<and> parseInt (ws @ ''-'' @ ds @ rest) = Some (- digits_val ds)"
    if "list_all isWhiteSpace ws" "isNumeral ds" "rest = [] \<or> \<not> isDigit (hd rest)"
      "digits_val ds \<le> 9007199254740991"
    using parseInt_reads [OF that(1) that(2) that(3)] small [OF that(4)] by simp
  have one: "parseTimeInput a = Some (digits_val a)"
    if "isNumeral a" "digits_val a \<le> 9007199254740991"
    using that unfolding parseTimeInput_def
    by (simp add: sp1 parseInt_numeral small)
  have two: "parseTimeInput (a @ '':'' @ b) = Some (digits_val a * 60 + digits_val b)"
    if n: "isNumeral a" "isNumeral b"
      and le: "digits_val a * 60 + digits_val b \<le> 9007199254740991"
  proof -
    have nn: "0 \<le> digits_val a" "0 \<le> digits_val b"
      by (rule digits_val_nonneg)+
    with le have "digits_val a \<le> 9007199254740991" "digits_val b \<le> 9007199254740991"
      by linarith+
    then have p: "parseInt a = Some (digits_val a)" "parseInt b = Some (digits_val b)"
      using n by (simp_all add: parseInt_numeral small)
    have "combine_parts [digits_val a, digits_val b] = Some (digits_val a * 60 + digits_val b)"
      using nn le by (intro combine_parts_exact(2) [of 0]) simp_all
    then show ?thesis
      unfolding parseTimeInput_def sp2 [OF n] by (simp add: p)
  qed
  have three: "parseTimeInput (a @ '':'' @ b @ '':'' @ c)
      = Some (digits_val a * 3600 + digits_val b * 60 + digits_val c)"
    if n: "isNumeral a" "isNumeral b" "isNumeral c"
      and le: "digits_val a * 3600 + digits_val b * 60 + digits_val c \<le> 9007199254740991"
  proof -
    have nn: "0 \<le> digits_val a" "0 \<le> digits_val b" "0 \<le> digits_val c"
      by (rule digits_val_nonneg)+
    with le have "digits_val a \<le> 9007199254740991" "digits_val b \<le> 9007199254740991"
      "digits_val c \<le> 9007199254740991"
      by linarith+
    then have p: "parseInt a = Some (digits_val a)" "parseInt b = Some (digits_val b)"
      "parseInt c = Some (digits_val c)"
      using n by (simp_all add: parseInt_numeral small)
    have "combine_parts [digits_val a, digits_val b, digits_val c]
        = Some (digits_val a * 3600 + digits_val b * 60 + digits_val c)"
      using nn le by (intro combine_parts_exact(1)) simp_all
    then show ?thesis
      unfolding parseTimeInput_def sp3 [OF n] by (simp add: p)
  qed
  show ?thesis
    using acc reads one two three parseInt_no_digit [of f] parseTimeInput_None_iff [of input]
      parseInt_shape [of f]
    by blast
qed

theorem C5_parse_failure_exactly_witness:
  "parseTimeInput ''1:2:3:4'' = None
   \<and> parseInt ''abc'' = None
   \<and> parseInt '' 12px'' = Some 12
   \<and> parseInt '' +12px'' = Some 12
   \<and> parseInt '' -12px'' = Some (- 12)
   \<and> parseTimeInput ''07'' = Some 7
   \<and> parseTimeInput ''07:30'' = Some 450
   \<and> parseTimeInput ''07:30:15'' = Some 27015"
proof -
  have f: "3 < length (split_on (CHR '':'') ''1:2:3:4'')" "\<not> list_ex isDigit ''abc''"
    "list_all isWhiteSpace '' ''" "isNumeral ''12''" "\<not> isDigit (hd ''px'')"
    "isNumeral ''07''" "isNumeral ''30''" "isNumeral ''15''"
    by code_simp+
  have v: "digits_val ''12'' = 12" "digits_val ''07'' = 7" "digits_val ''30'' = 30"
    "digits_val ''15'' = 15"
    by code_simp+
  show ?thesis
    using C5_parse_failure_exactly
      [of "''1:2:3:4''" "''abc''" "'' ''" "''12''" "''px''" "''07''" "''30''" "''15''"] f
    unfolding v by simp
qed

text \<open>
  C5 as stated does not hold: the field \<^verbatim>\<open>5x\<close> is not a numeral and is accepted with
  the value of its numeric prefix, and \<^verbatim>\<open>-5\<close> is accepted with a negative value.
\<close>

theorem C5_counterexample:
  "\<not> list_all isNumeral (split_on (CHR '':'') ''5x'') \<and> parseTimeInput ''5x'' = Some 5
   \<and> \<not> list_all isNumeral (split_on (CHR '':'') ''-5'') \<and> parseTimeInput ''-5'' = Some (- 5)"
  by code_simp

section \<open>Instruction builder and identifiers\<close>

lemma addRepeatInstruction_effect:
  "addRepeatInstruction s =
     (if list_ex is_time (instructions s)
      then s\<lparr>instructions := instructions s @ [Repeat (instructionIdRef s) (repeatInput s)],
             instructionIdRef := instructionIdRef s + 1\<rparr>
      else s)"
  by (simp add: addRepeatInstruction_def)

text \<open>
  C6. \<^verbatim>\<open>addRepeatInstruction\<close> checks that a time instruction exists and nothing
  else; the count is not examined. The handler of the count field keeps a negative
  number. With one time instruction in the list and \<^verbatim>\<open>-3\<close> typed into the count
  field, the repeat instruction with count -3 is appended under the next identifier,
  where the claim has the list unchanged for a non-positive count.
\<close>

theorem C6_negative_count_appended:
  "(let s = run [ChangeTimeInput ''5'', AddTime, ChangeRepeatInput ''-3''] init_app
    in instructions s = [Time \<lparr>id' = 0, time = 5\<rparr>]
       \<and> repeatInput s = - 3
       \<and> instructions (step AddRepeat s) = [Time \<lparr>id' = 0, time = 5\<rparr>, Repeat 1 (- 3)])"
  by code_simp

lemma ids_below_mono: "ids_below n insts \<Longrightarrow> n \<le> m \<Longrightarrow> ids_below m insts"
  by (auto simp: ids_below_def list_all_iff)

lemma ids_below_snoc:
  "ids_below n insts \<Longrightarrow> inst_id inst = n \<Longrightarrow> ids_below (Suc n) (insts @ [inst])"
  by (auto simp: ids_below_def list_all_iff)

lemma ids_below_filter: "ids_below n insts \<Longrightarrow> ids_below n (filter P insts)"
  by (auto simp: ids_below_def list_all_iff distinct_map_filter)

lemma edit_one_id: "inst_id (edit_one answer inst) = inst_id inst"
  by (cases inst) (auto split: option.splits)

lemma edit_map_ids: "map inst_id (edit_map i answers insts) = map inst_id insts"
  by (induction i answers insts rule: edit_map.induct)
    (auto simp: edit_one_id split: list.splits)

lemma ids_below_edit_map: "ids_below n insts \<Longrightarrow> ids_below n (edit_map i answers insts)"
proof -
  assume a: "ids_below n insts"
  have "list_all (\<lambda>inst. inst_id inst < n) xs = list_all (\<lambda>k. k < n) (map inst_id xs)" for xs
    by (simp add: list_all_iff)
  with a show ?thesis
    by (simp add: ids_below_def edit_map_ids)
qed

lemma session_ids_saved_mono:
  "list_all (\<lambda>timer. ids_below n (timer_instructions timer)) ts \<Longrightarrow> n \<le> m \<Longrightarrow>
   list_all (\<lambda>timer. ids_below m (timer_instructions timer)) ts"
  by (auto simp: list_all_iff intro: ids_below_mono)

lemma session_ids_fields:
  assumes "session_ids s"
    and "instructions s' = instructions s"
    and "savedTimers s' = savedTimers s"
    and "instructionIdRef s' = instructionIdRef s"
  shows "session_ids s'"
  using assms by (simp add: session_ids_def)

lemma handle_session_ids:
  assumes "session_ids s" and "e \<noteq> Reload"
  shows "session_ids (handle e s)"
proof -
  have same: "\<And>s'. instructions s' = instructions s \<Longrightarrow> savedTimers s' = savedTimers s \<Longrightarrow>
      instructionIdRef s' = instructionIdRef s \<Longrightarrow> session_ids s'"
    using assms(1) by (rule session_ids_fields)
  have cur: "ids_below (instructionIdRef s) (instructions s)"
    and saved: "list_all (\<lambda>timer. ids_below (instructionIdRef s) (timer_instructions timer))
        (savedTimers s)"
    using assms(1) by (simp_all add: session_ids_def)
  show ?thesis
  proof (cases e)
    case (ChangeTimeInput v)
    then show ?thesis by (simp add: same changeTimeInput_def)
  next
    case AddTime
    have "session_ids (s\<lparr>instructions := instructions s @ [Time \<lparr>id' = instructionIdRef s, time = n\<rparr>],
        instructionIdRef := instructionIdRef s + 1, timeInput := []\<rparr>)" for n
      using ids_below_snoc [OF cur] session_ids_saved_mono [OF saved]
      by (simp add: session_ids_def)
    then show ?thesis
      using assms(1) by (simp add: AddTime addTimeInstruction_def split: option.splits)
  next
    case (ChangeRepeatInput v)
    then show ?thesis by (simp add: same changeRepeatInput_def)
  next
    case AddRepeat
    have "session_ids (s\<lparr>instructions := instructions s @ [Repeat (instructionIdRef s) k],
        instructionIdRef := instructionIdRef s + 1\<rparr>)" for k
      using ids_below_snoc [OF cur] session_ids_saved_mono [OF saved]
      by (simp add: session_ids_def)
    then show ?thesis
      using assms(1) by (simp add: AddRepeat addRepeatInstruction_def)
  next
    case (Edit i answers)
    then show ?thesis
      using assms(1) ids_below_edit_map [OF cur] saved
      by (simp add: editInstruction_def session_ids_def)
  next
    case (Delete i)
    then show ?thesis
      using ids_below_filter [OF cur] saved by (simp add: deleteInstruction_def session_ids_def)
  next
    case Clear
    then show ?thesis
      using saved by (simp add: clearInstructions_def session_ids_def ids_below_def)
  next
    case Start
    then show ?thesis by (simp add: same startProgram_def Let_def assms(1))
  next
    case Stop
    then show ?thesis
      by (simp add: same stopProgram_def clear_interval_ref_def split: option.splits)
  next
    case (EditCurrent answer)
    then show ?thesis
      by (auto intro!: same simp: editCurrentInstruction_def assms(1) split: option.splits)
  next
    case (TickFire h)
    then show ?thesis
      by (auto intro!: same simp: interval_callback_def Let_def assms(1))
  next
    case (ChangeName v)
    then show ?thesis by (simp add: same changeSavedTimerName_def)
  next
    case Save
    then show ?thesis
      using cur saved assms(1)
      by (auto simp: saveOrUpdateTimer_def session_ids_def list_all_iff split: option.splits)
  next
    case (Load n)
    then show ?thesis
      using saved assms(1) by (auto simp: loadTimer_def session_ids_def list_all_iff)
  next
    case (EditSaved i answer)
    then show ?thesis
      using cur saved assms(1)
      by (auto simp: editSavedTimer_def session_ids_def list_all_iff split: option.splits)
  next
    case (DeleteSaved i)
    then show ?thesis
      using cur saved by (auto simp: deleteSavedTimer_def session_ids_def list_all_iff)
  next
    case Reload
    with assms(2) show ?thesis by simp
  qed
qed

lemma rerender_session_ids: "session_ids s' \<Longrightarrow> session_ids (rerender stored s s')"
  by (auto intro: session_ids_fields
      simp: rerender_def effect_body_def clear_interval_ref_def split: option.splits)

lemma run_session_ids: "session_ids s \<Longrightarrow> Reload \<notin> set es \<Longrightarrow> session_ids (run es s)"
proof (induction es arbitrary: s)
  case Nil
  then show ?case by (simp add: run_def)
next
  case (Cons e es)
  from Cons.prems have "e \<noteq> Reload"
    by auto
  with Cons.prems have "session_ids (step e s)"
    by (simp add: step_def rerender_session_ids handle_session_ids)
  with Cons show ?case
    by (simp add: run_def)
qed

lemma session_ids_distinct:
  "Reload \<notin> set es \<Longrightarrow> distinct (map inst_id (instructions (run es init_app)))"
proof -
  have "session_ids init_app"
    by (simp add: session_ids_def ids_below_def init_app_def)
  then show "Reload \<notin> set es \<Longrightarrow> distinct (map inst_id (instructions (run es init_app)))"
    using run_session_ids [of init_app es] by (simp add: session_ids_def ids_below_def)
qed

text \<open>
  C8. Identifiers are not distinct in every reachable list. A time instruction is added
  and saved as a timer; the page is loaded again, which resets the identifier counter
  to 0 and reads the saved timers back; the saved timer is loaded and another time
  instruction is added: both instructions of the list have identifier 0. Without a
  reload the identifiers of the list are pairwise distinct (lemma
  \<open>session_ids_distinct\<close>).
\<close>

theorem C8_duplicate_id_after_reload:
  "(let s = run [ChangeTimeInput ''5'', AddTime, ChangeName ''a'', Save, Reload, Load 0,
                 ChangeTimeInput ''7'', AddTime] init_app
    in instructions s = [Time \<lparr>id' = 0, time = 5\<rparr>, Time \<lparr>id' = 0, time = 7\<rparr>]
       \<and> \<not> distinct (map inst_id (instructions s)))"
  by code_simp

section \<open>Countdown runner\<close>

text \<open>
  C7. The expansion of the empty instruction list is empty. \<^verbatim>\<open>startProgram\<close> on
  a state whose instruction list expands to the empty sequence changes nothing: the
  running flag, the index, the countdown and the stored sequence are as before, and no
  effect is run. When the expansion is not empty, the index is set to 0, the countdown
  to the duration of the first entry, the sequence is stored and the program runs.
\<close>

theorem C7_start_rejects_empty:
  "flattenInstructionsEntire [] = []
   \<and> (flattenInstructionsEntire (instructions s) = [] \<longrightarrow> startProgram s = s \<and> step Start s = s)
   \<and> (flattenInstructionsEntire (instructions s) \<noteq> [] \<longrightarrow>
        index (programState (startProgram s)) = 0
        \<and> countdown (programState (startProgram s))
            = time (hd (flattenInstructionsEntire (instructions s)))
        \<and> flattenedSequence (startProgram s) = flattenInstructionsEntire (instructions s)
        \<and> isProgramRunning (startProgram s))"
  by (simp add: flattenInstructionsEntire_def startProgram_def step_def rerender_def hd_conv_nth
      Let_def)

theorem C7_start_rejects_empty_witness:
  "flattenInstructionsEntire (instructions (init_app\<lparr>instructions := [Repeat 0 2]\<rparr>)) = []
   \<and> startProgram (init_app\<lparr>instructions := [Repeat 0 2]\<rparr>) = init_app\<lparr>instructions := [Repeat 0 2]\<rparr>
   \<and> step Start (init_app\<lparr>instructions := [Repeat 0 2]\<rparr>) = init_app\<lparr>instructions := [Repeat 0 2]\<rparr>
   \<and> flattenInstructionsEntire
        (instructions (init_app\<lparr>instructions := [Time \<lparr>id' = 0, time = 7\<rparr>]\<rparr>)) \<noteq> []
   \<and> programState (startProgram (init_app\<lparr>instructions := [Time \<lparr>id' = 0, time = 7\<rparr>]\<rparr>))
       = \<lparr>index = 0, countdown = 7\<rparr>"
proof -
  have e: "flattenInstructionsEntire (instructions (init_app\<lparr>instructions := [Repeat 0 2]\<rparr>)) = []"
    by code_simp
  have n: "flattenInstructionsEntire
        (instructions (init_app\<lparr>instructions := [Time \<lparr>id' = 0, time = 7\<rparr>]\<rparr>))
      = [\<lparr>id' = 0, time = 7\<rparr>]"
    by code_simp
  show ?thesis
    using C7_start_rejects_empty [of "init_app\<lparr>instructions := [Repeat 0 2]\<rparr>"]
      C7_start_rejects_empty [of "init_app\<lparr>instructions := [Time \<lparr>id' = 0, time = 7\<rparr>]\<rparr>"]
    unfolding e n by simp
qed

text \<open>
  C2. From the initial state, time instructions of 2 seconds and 1 second are added and
  the program is started: the flat sequence is 2, 1 and one interval is live. Five
  callbacks of that interval are delivered. Index and countdown go through (0,2),
  (0,1), (0,0), (1,1), (1,0); the fifth callback ends the run (the program is no longer
  running and no interval is live). The audio cue has been played exactly twice, once at
  each step boundary.
\<close>

theorem C2_trace_2_1:
  "(let s0 = run [ChangeTimeInput ''2'', AddTime, ChangeTimeInput ''1'', AddTime, Start] init_app;
        s1 = step (TickFire 1) s0;
        s2 = step (TickFire 1) s1;
        s3 = step (TickFire 1) s2;
        s4 = step (TickFire 1) s3;
        s5 = step (TickFire 1) s4
    in map time (flattenedSequence s0) = [2, 1]
       \<and> intervals s0 = [1]
       \<and> map (\<lambda>s. (index (programState s), countdown (programState s), isProgramRunning s,
                    audioPlays s)) [s0, s1, s2, s3, s4, s5]
         = [(0, 2, True, 0), (0, 1, True, 0), (0, 0, True, 0), (1, 1, True, 1),
            (1, 0, True, 1), (1, 0, False, 2)]
       \<and> intervals s5 = [])"
  by code_simp

lemma editCurrent_frame:
  "instructions (editCurrentInstruction answer s) = instructions s"
  "index (programState (editCurrentInstruction answer s)) = index (programState s)"
  "length (flattenedSequence (editCurrentInstruction answer s)) = length (flattenedSequence s)"
  "j \<noteq> index (programState s) \<Longrightarrow>
     flattenedSequence (editCurrentInstruction answer s) ! j = flattenedSequence s ! j"
  by (simp_all add: editCurrentInstruction_def split: option.splits)

lemma editCurrent_not_accepted:
  "\<not> edit_accepted answer s \<Longrightarrow> editCurrentInstruction answer s = s"
  by (auto simp: edit_accepted_def editCurrentInstruction_def split: option.splits)

text \<open>
  C9. \<^verbatim>\<open>editCurrentInstruction\<close> does nothing unless the program is running.
  While it runs, given a prompt answer that parses to a positive number of seconds, the
  state afterwards is the state before with the current entry of the flat sequence given
  the new duration and the countdown set to it. Whatever the answer, the authored
  instruction list, the current index, the length of the flat sequence and every entry
  at an index other than the current one are unchanged.
\<close>

theorem C9_patch_current_frame:
  "(\<not> isProgramRunning s \<longrightarrow> editCurrentInstruction answer s = s)
   \<and> (isProgramRunning s \<and> index (programState s) < length (flattenedSequence s)
       \<and> newTimeStr \<noteq> [] \<and> parseTimeInput newTimeStr = Some newSeconds \<and> 0 < newSeconds \<longrightarrow>
        editCurrentInstruction (Some newTimeStr) s
          = s\<lparr>flattenedSequence :=
                (flattenedSequence s)
                  [index (programState s) :=
                     (flattenedSequence s ! index (programState s))\<lparr>time := newSeconds\<rparr>],
              programState := (programState s)\<lparr>countdown := newSeconds\<rparr>\<rparr>)
   \<and> instructions (editCurrentInstruction answer s) = instructions s
   \<and> index (programState (editCurrentInstruction answer s)) = index (programState s)
   \<and> length (flattenedSequence (editCurrentInstruction answer s)) = length (flattenedSequence s)
   \<and> (j \<noteq> index (programState s) \<longrightarrow>
        flattenedSequence (editCurrentInstruction answer s) ! j = flattenedSequence s ! j)"
  by (simp add: editCurrent_frame) (simp add: editCurrentInstruction_def)

theorem C9_patch_current_frame_witness:
  "\<not> isProgramRunning init_app
   \<and> editCurrentInstruction (Some ''9'') init_app = init_app
   \<and> isProgramRunning
         (run [ChangeTimeInput ''5'', AddTime, ChangeTimeInput ''3'', AddTime, Start] init_app)
   \<and> parseTimeInput ''9'' = Some 9
   \<and> editCurrentInstruction (Some ''9'')
         (run [ChangeTimeInput ''5'', AddTime, ChangeTimeInput ''3'', AddTime, Start] init_app)
       = (run [ChangeTimeInput ''5'', AddTime, ChangeTimeInput ''3'', AddTime, Start] init_app)
           \<lparr>flattenedSequence := [\<lparr>id' = 0, time = 9\<rparr>, \<lparr>id' = 1, time = 3\<rparr>],
            programState := \<lparr>index = 0, countdown = 9\<rparr>\<rparr>
   \<and> flattenedSequence
         (editCurrentInstruction (Some ''9'')
            (run [ChangeTimeInput ''5'', AddTime, ChangeTimeInput ''3'', AddTime, Start]
               init_app)) ! 1
       = flattenedSequence
           (run [ChangeTimeInput ''5'', AddTime, ChangeTimeInput ''3'', AddTime, Start]
              init_app) ! 1"
proof -
  let ?S = "run [ChangeTimeInput ''5'', AddTime, ChangeTimeInput ''3'', AddTime, Start] init_app"
  have f: "\<not> isProgramRunning init_app" "isProgramRunning ?S"
    "index (programState ?S) < length (flattenedSequence ?S)"
    "parseTimeInput ''9'' = Some 9" "1 \<noteq> index (programState ?S)"
    by code_simp+
  have g: "(flattenedSequence ?S)
       [index (programState ?S) := (flattenedSequence ?S ! index (programState ?S))\<lparr>time := 9\<rparr>]
     = [\<lparr>id' = 0, time = 9\<rparr>, \<lparr>id' = 1, time = 3\<rparr>]"
    "(programState ?S)\<lparr>countdown := 9\<rparr> = \<lparr>index = 0, countdown = 9\<rparr>"
    by code_simp+
  have n: "''9'' \<noteq> []" "(0::int) < 9"
    by simp_all
  have a: "editCurrentInstruction (Some ''9'') init_app = init_app"
    using C9_patch_current_frame [of init_app "Some ''9''" "''9''" 9 1] f(1) by blast
  have b: "editCurrentInstruction (Some ''9'') ?S
      = ?S\<lparr>flattenedSequence := [\<lparr>id' = 0, time = 9\<rparr>, \<lparr>id' = 1, time = 3\<rparr>],
            programState := \<lparr>index = 0, countdown = 9\<rparr>\<rparr>"
    using C9_patch_current_frame [of ?S "Some ''9''" "''9''" 9 1] f n unfolding g by blast
  have c: "flattenedSequence (editCurrentInstruction (Some ''9'') ?S) ! 1
      = flattenedSequence ?S ! 1"
    using C9_patch_current_frame [of ?S "Some ''9''" "''9''" 9 1] f(5) by blast
  show ?thesis
    using f(1,2,4) a b c by blast
qed

text \<open>
  C10. Every entry of the expanded sequence is the entry of a time instruction of the
  input list, identifier included: a repeat instruction copies entries and gives them no
  new identifier, so the expansion of a time instruction with identifier 0 followed by
  a repeat of 2 has three entries with identifier 0. Patching the current entry during
  a run leaves every entry at another index as it was, also the entries that share
  the identifier of the patched one: after the patch to 9 seconds the sequence is 9, 5, 5.
  (The patch writes a fresh entry into a fresh array, so entries are values here.)
\<close>

theorem C10_flat_entries_keep_ids:
  "(\<forall>t \<in> set (flattenInstructionsEntire instrs). Time t \<in> set instrs)
   \<and> map id' (flattenInstructionsEntire [Time \<lparr>id' = 0, time = 5\<rparr>, Repeat 1 2]) = [0, 0, 0]
   \<and> (j \<noteq> index (programState s) \<longrightarrow>
        flattenedSequence (editCurrentInstruction answer s) ! j = flattenedSequence s ! j)
   \<and> (let s0 = run [ChangeTimeInput ''5'', AddTime, ChangeRepeatInput ''2'', AddRepeat, Start]
                  init_app
       in flattenedSequence s0
            = [\<lparr>id' = 0, time = 5\<rparr>, \<lparr>id' = 0, time = 5\<rparr>, \<lparr>id' = 0, time = 5\<rparr>]
          \<and> flattenedSequence (step (EditCurrent (Some ''9'')) s0)
            = [\<lparr>id' = 0, time = 9\<rparr>, \<lparr>id' = 0, time = 5\<rparr>, \<lparr>id' = 0, time = 5\<rparr>])"
proof -
  have "\<forall>t \<in> set (flattenInstructionsEntire instrs). Time t \<in> set instrs"
    using flatten_loop_set [of "[]" instrs] by (auto simp: flattenInstructionsEntire_def)
  moreover have "map id' (flattenInstructionsEntire [Time \<lparr>id' = 0, time = 5\<rparr>, Repeat 1 2])
      = [0, 0, 0]"
    by code_simp
  moreover have "(let s0 = run [ChangeTimeInput ''5'', AddTime, ChangeRepeatInput ''2'', AddRepeat, Start]
                  init_app
       in flattenedSequence s0
            = [\<lparr>id' = 0, time = 5\<rparr>, \<lparr>id' = 0, time = 5\<rparr>, \<lparr>id' = 0, time = 5\<rparr>]
          \<and> flattenedSequence (step (EditCurrent (Some ''9'')) s0)
            = [\<lparr>id' = 0, time = 9\<rparr>, \<lparr>id' = 0, time = 5\<rparr>, \<lparr>id' = 0, time = 5\<rparr>])"
    by code_simp
  ultimately show ?thesis
    using editCurrent_frame(4) [of j s answer] by blast
qed

theorem C10_flat_entries_keep_ids_witness:
  "list_all (\<lambda>t. Time t \<in> set [Time \<lparr>id' = 0, time = 2\<rparr>, Time \<lparr>id' = 1, time = 3\<rparr>, Repeat 2 1])
     (flattenInstructionsEntire
        [Time \<lparr>id' = 0, time = 2\<rparr>, Time \<lparr>id' = 1, time = 3\<rparr>, Repeat 2 1])
   \<and> flattenedSequence
         (editCurrentInstruction (Some ''9'')
            (run [ChangeTimeInput ''5'', AddTime, ChangeRepeatInput ''2'', AddRepeat, Start]
               init_app)) ! 2
       = flattenedSequence
           (run [ChangeTimeInput ''5'', AddTime, ChangeRepeatInput ''2'', AddRepeat, Start]
              init_app) ! 2"
proof -
  let ?S = "run [ChangeTimeInput ''5'', AddTime, ChangeRepeatInput ''2'', AddRepeat, Start] init_app"
  have "2 \<noteq> index (programState ?S)"
    by code_simp
  then show ?thesis
    using C10_flat_entries_keep_ids
      [of "[Time \<lparr>id' = 0, time = 2\<rparr>, Time \<lparr>id' = 1, time = 3\<rparr>, Repeat 2 1]" 2 ?S "Some ''9''"]
    by (simp only: list_all_iff) blast
qed

section \<open>The interval timer\<close>

lemma one_interval_at_most_ref: "one_interval s \<Longrightarrow> at_most_ref s"
  by (auto simp: one_interval_def at_most_ref_def split: if_splits option.splits)

lemma effect_rerun_one_interval:
  "at_most_ref s \<Longrightarrow> one_interval (effect_body (clear_interval_ref s))"
  by (auto simp: one_interval_def at_most_ref_def effect_body_def clear_interval_ref_def
      split: option.splits)

lemma init_one_interval: "one_interval init_app"
  by (simp add: one_interval_def init_app_def)

lemma runner_fields_one_interval:
  assumes "one_interval s"
    and "isProgramRunning s' = isProgramRunning s"
    and "programIntervalRef s' = programIntervalRef s"
    and "intervals s' = intervals s"
    and "nextHandle s' = nextHandle s"
  shows "one_interval s'"
  using assms by (simp add: one_interval_def)

lemma handle_one_interval:
  assumes "one_interval s"
  shows "at_most_ref (handle e s)"
    and "isProgramRunning (handle e s) = isProgramRunning s \<Longrightarrow> one_interval (handle e s)"
proof -
  have builder: "\<And>s'. isProgramRunning s' = isProgramRunning s \<Longrightarrow>
      programIntervalRef s' = programIntervalRef s \<Longrightarrow> intervals s' = intervals s \<Longrightarrow>
      nextHandle s' = nextHandle s \<Longrightarrow> one_interval s'"
    using assms by (rule runner_fields_one_interval)
  have both: "one_interval (handle e s) \<or>
      (isProgramRunning (handle e s) \<noteq> isProgramRunning s \<and> at_most_ref (handle e s))"
  proof (cases e)
    case (ChangeTimeInput v)
    then show ?thesis by (simp add: builder changeTimeInput_def)
  next
    case AddTime
    then show ?thesis
      by (auto intro!: builder simp: addTimeInstruction_def split: option.splits)
  next
    case (ChangeRepeatInput v)
    then show ?thesis by (simp add: builder changeRepeatInput_def)
  next
    case AddRepeat
    then show ?thesis by (simp add: builder addRepeatInstruction_def assms)
  next
    case (Edit i answers)
    then show ?thesis by (simp add: builder editInstruction_def assms)
  next
    case (Delete i)
    then show ?thesis by (simp add: builder deleteInstruction_def)
  next
    case Clear
    then show ?thesis by (simp add: builder clearInstructions_def)
  next
    case Start
    show ?thesis
    proof (cases "isProgramRunning (startProgram s) = isProgramRunning s")
      case True
      then have "one_interval (startProgram s)"
        using assms by (auto simp: startProgram_def Let_def one_interval_def split: if_splits)
      then show ?thesis by (simp add: Start)
    next
      case False
      moreover have "at_most_ref (startProgram s)"
        using one_interval_at_most_ref [OF assms]
        by (auto simp: startProgram_def Let_def at_most_ref_def)
      ultimately show ?thesis by (simp add: Start)
    qed
  next
    case Stop
    have "one_interval (stopProgram s)"
      using assms
      by (auto simp: stopProgram_def clear_interval_ref_def one_interval_def
          split: option.splits if_splits)
    then show ?thesis by (simp add: Stop)
  next
    case (EditCurrent answer)
    then show ?thesis
      by (auto intro!: builder simp: editCurrentInstruction_def assms split: option.splits)
  next
    case (TickFire h)
    show ?thesis
    proof (cases "isProgramRunning (interval_callback s) = isProgramRunning s")
      case True
      then have "one_interval (interval_callback s)"
        using assms by (auto simp: interval_callback_def Let_def one_interval_def split: if_splits)
      then show ?thesis by (simp add: TickFire assms)
    next
      case False
      moreover have "at_most_ref (interval_callback s)"
        using one_interval_at_most_ref [OF assms]
        by (auto simp: interval_callback_def Let_def at_most_ref_def)
      ultimately show ?thesis by (simp add: TickFire assms)
    qed
  next
    case (ChangeName v)
    then show ?thesis by (simp add: builder changeSavedTimerName_def)
  next
    case Save
    then show ?thesis
      by (auto intro!: builder simp: saveOrUpdateTimer_def assms split: option.splits)
  next
    case (Load n)
    then show ?thesis by (simp add: builder loadTimer_def assms)
  next
    case (EditSaved i answer)
    then show ?thesis
      by (auto intro!: builder simp: editSavedTimer_def assms split: option.splits)
  next
    case (DeleteSaved i)
    then show ?thesis by (simp add: builder deleteSavedTimer_def)
  next
    case Reload
    have "one_interval (remount s)"
      by (simp add: remount_def one_interval_def init_app_def)
    then show ?thesis by (simp add: Reload)
  qed
  from both show "at_most_ref (handle e s)"
    using one_interval_at_most_ref by blast
  from both show "isProgramRunning (handle e s) = isProgramRunning s \<Longrightarrow> one_interval (handle e s)"
    by blast
qed

lemma step_one_interval: "one_interval s \<Longrightarrow> one_interval (step e s)"
  unfolding step_def rerender_def
  by (simp add: handle_one_interval effect_rerun_one_interval)

lemma run_Cons: "run (e # es) s = run es (step e s)"
  by (simp add: run_def)

lemma run_one_interval: "one_interval s \<Longrightarrow> one_interval (run es s)"
  by (induction es arbitrary: s) (simp_all add: run_def step_one_interval)

lemma reachable_one_interval: "one_interval (run es init_app)"
  by (rule run_one_interval [OF init_one_interval])

lemma rerender_same: "rerender False s s = s"
  by (simp add: rerender_def)

lemma tick_not_running:
  assumes "one_interval s" and "\<not> isProgramRunning s"
  shows "step (TickFire h) s = s"
proof -
  from assms have "intervals s = []"
    by (simp add: one_interval_def)
  then show ?thesis
    by (simp add: step_def rerender_same)
qed

lemma ticks_not_running:
  assumes "one_interval s" and "\<not> isProgramRunning s"
  shows "run (map TickFire hs) s = s"
  using assms by (induction hs) (simp_all add: run_def tick_not_running)

lemma effect_body_running: "isProgramRunning (effect_body s) = isProgramRunning s"
  by (simp add: effect_body_def)

lemma clear_interval_ref_running: "isProgramRunning (clear_interval_ref s) = isProgramRunning s"
  by (simp add: clear_interval_ref_def split: option.splits)

lemma step_Stop_not_running: "\<not> isProgramRunning (step Stop s)"
  by (simp add: step_def rerender_def stopProgram_def effect_body_running
      clear_interval_ref_running)

text \<open>
  C3. In every state the component can reach, once \<^verbatim>\<open>stopProgram\<close> has run no
  delivery of a timer callback changes anything, whatever handles the pending callbacks
  carry; and once the program is not running (after a stop, or after the callback that
  finished the sequence) no interval is live and no delivery changes the state, so the
  index and the countdown are never written again by the timer.
\<close>

theorem C3_no_tick_after_stop_or_finish:
  "run (map TickFire hs) (step Stop (run es init_app)) = step Stop (run es init_app)
   \<and> (\<not> isProgramRunning (run es init_app) \<longrightarrow>
        intervals (run es init_app) = []
        \<and> run (map TickFire hs) (run es init_app) = run es init_app)"
proof -
  have r: "one_interval (run es init_app)"
    by (rule reachable_one_interval)
  have "one_interval (step Stop (run es init_app))"
    by (rule step_one_interval [OF r])
  then have "run (map TickFire hs) (step Stop (run es init_app)) = step Stop (run es init_app)"
    by (rule ticks_not_running) (rule step_Stop_not_running)
  moreover have "\<not> isProgramRunning (run es init_app) \<Longrightarrow> intervals (run es init_app) = []"
    using r by (simp add: one_interval_def)
  ultimately show ?thesis
    using ticks_not_running [OF r] by blast
qed

theorem C3_no_tick_after_stop_or_finish_witness:
  "run (map TickFire [1, 2])
     (step Stop (run [ChangeTimeInput ''2'', AddTime, Start, TickFire 1] init_app))
     = step Stop (run [ChangeTimeInput ''2'', AddTime, Start, TickFire 1] init_app)
   \<and> \<not> isProgramRunning
         (run [ChangeTimeInput ''1'', AddTime, Start, TickFire 1, TickFire 1] init_app)
   \<and> intervals
         (run [ChangeTimeInput ''1'', AddTime, Start, TickFire 1, TickFire 1] init_app) = []
   \<and> run (map TickFire [1, 1])
         (run [ChangeTimeInput ''1'', AddTime, Start, TickFire 1, TickFire 1] init_app)
       = run [ChangeTimeInput ''1'', AddTime, Start, TickFire 1, TickFire 1] init_app"
proof -
  have "\<not> isProgramRunning
         (run [ChangeTimeInput ''1'', AddTime, Start, TickFire 1, TickFire 1] init_app)"
    by code_simp
  then show ?thesis
    using C3_no_tick_after_stop_or_finish
        [of "[1, 2]" "[ChangeTimeInput ''2'', AddTime, Start, TickFire 1]"]
      C3_no_tick_after_stop_or_finish
        [of "[1, 1]" "[ChangeTimeInput ''1'', AddTime, Start, TickFire 1, TickFire 1]"]
    by blast
qed

end
